theory Spec2Isabelle
  imports Complex_Main
begin

section \<open>The Python runtime: exceptions, outcomes, the world\<close>

text \<open>
  Both scripts are straight-line Python over an imaging library. A statement either
  completes, raises an \<^verbatim>\<open>Exception\<close> (for which only \<^verbatim>\<open>str(e)\<close> is ever
  used), or leaves through \<^verbatim>\<open>sys.exit(n)\<close>, which \<^verbatim>\<open>except Exception\<close> does
  not catch.
\<close>

type_synonym path = string

datatype exn = Exn string

fun str :: "exn \<Rightarrow> string" where
  "str (Exn msg) = msg"

datatype 'a outcome = Return 'a | Raise exn | SystemExit nat

text \<open>
  An image as the library presents it: \<^verbatim>\<open>im.size\<close>, \<^verbatim>\<open>im.mode\<close> and
  \<^verbatim>\<open>im.getpixel((x, y))\<close>, a pixel being the list of its band values.
\<close>

record image =
  isize :: "nat \<times> nat"
  imode :: string
  getpixel :: "nat \<times> nat \<Rightarrow> nat list"

text \<open>
  The part of the world the scripts touch: what opening each path yields (the decoded
  image, or the exception raised for a missing or unreadable file), the files written so
  far in the order they were written, and the lines printed on standard output.
\<close>

record world =
  files :: "path \<Rightarrow> exn + image"
  saved :: "(path \<times> image) list"
  stdout :: "string list"

type_synonym 'a io = "world \<Rightarrow> 'a outcome \<times> world"

definition io_return :: "'a \<Rightarrow> 'a io" where
  "io_return a w = (Return a, w)"

definition io_raise :: "exn \<Rightarrow> 'a io" where
  "io_raise e w = (Raise e, w)"

definition io_bind :: "'a io \<Rightarrow> ('a \<Rightarrow> 'b io) \<Rightarrow> 'b io" where
  "io_bind m f w =
     (case m w of
        (Return a, w') \<Rightarrow> f a w'
      | (Raise e, w') \<Rightarrow> (Raise e, w')
      | (SystemExit n, w') \<Rightarrow> (SystemExit n, w'))"

text \<open>\<^verbatim>\<open>try: body  except Exception as e: handler(e)\<close>\<close>

definition try_except :: "'a io \<Rightarrow> (exn \<Rightarrow> 'a io) \<Rightarrow> 'a io" where
  "try_except body handler w =
     (case body w of
        (Raise e, w') \<Rightarrow> handler e w'
      | (Return a, w') \<Rightarrow> (Return a, w')
      | (SystemExit n, w') \<Rightarrow> (SystemExit n, w'))"

definition print :: "string \<Rightarrow> unit io" where
  "print line w = (Return (), w\<lparr>stdout := stdout w @ [line]\<rparr>)"

definition sys_exit :: "nat \<Rightarrow> 'a io" where
  "sys_exit n w = (SystemExit n, w)"

text \<open>\<^verbatim>\<open>sys.argv[i]\<close>: an index past the end raises IndexError.\<close>

definition argv_get :: "string list \<Rightarrow> nat \<Rightarrow> string io" where
  "argv_get argv i =
     (if i < length argv then io_return (argv ! i)
      else io_raise (Exn ''list index out of range''))"

text \<open>
  The exit status of the interpreter running a script body: 0 when the body runs to its
  end, 1 when an exception reaches the top level, \<open>n\<close> after \<^verbatim>\<open>sys.exit(n)\<close>.
\<close>

definition run_script :: "unit io \<Rightarrow> world \<Rightarrow> nat \<times> world" where
  "run_script body w =
     (case body w of
        (Return _, w') \<Rightarrow> (0, w')
      | (Raise e, w') \<Rightarrow> (1, w')
      | (SystemExit n, w') \<Rightarrow> (n, w'))"

text \<open>\<^verbatim>\<open>f"{s}"\<close> for a non-negative integer: its decimal digits.\<close>

fun str_nat :: "nat \<Rightarrow> string" where
  "str_nat n =
     (if n < 10 then [''0123456789'' ! n]
      else str_nat (n div 10) @ [''0123456789'' ! (n mod 10)])"

declare str_nat.simps [simp del]


section \<open>The imaging library\<close>

text \<open>
  The library is not part of the repository. It is taken as a parameter: which of its
  calls raise for reasons of the environment (and what), whether a save that so raises had
  already opened its target, what opening a target left that way raises, and the pixel
  kernels it applies (colour conversion, resampling, the rasterisation of a rounded
  rectangle). What the model fixes is the library's interface contract: the size and mode
  of each result, which pixels a call may change, and which colour modes the PNG writer
  takes.
\<close>

datatype resampling = LANCZOS | BICUBIC

datatype call =
    Convert image string
  | New string "nat \<times> nat" nat
  | RoundedRectangle image "(nat \<times> nat) \<times> (nat \<times> nat)" real nat
  | Fit image "nat \<times> nat" "real \<times> real"
  | Putalpha image image
  | Resize image "nat \<times> nat" resampling
  | Save image path "string option"

record pil =
  fault :: "call \<Rightarrow> exn option"
  spoils :: "call \<Rightarrow> bool"
  leftover :: "path \<Rightarrow> exn"
  to_rgba :: "image \<Rightarrow> nat \<times> nat \<Rightarrow> nat \<times> nat \<times> nat \<times> nat"
  resample :: "resampling \<Rightarrow> image \<Rightarrow> nat \<times> nat \<Rightarrow> nat \<times> nat \<Rightarrow> nat list"
  rounded_rectangle_covers :: "(nat \<times> nat) \<times> (nat \<times> nat) \<Rightarrow> real \<Rightarrow> nat \<times> nat \<Rightarrow> bool"

text \<open>A library call that touches no file: it raises if the library says so, else yields \<open>v\<close>.\<close>

definition lib_call :: "pil \<Rightarrow> call \<Rightarrow> 'a \<Rightarrow> 'a io" where
  "lib_call env c v w =
     (case fault env c of Some e \<Rightarrow> (Raise e, w) | None \<Rightarrow> (Return v, w))"

text \<open>\<^verbatim>\<open>Image.open(path)\<close>\<close>

definition Image_open :: "path \<Rightarrow> image io" where
  "Image_open p w =
     (case files w p of Inl e \<Rightarrow> (Raise e, w) | Inr im \<Rightarrow> (Return im, w))"

text \<open>
  \<^verbatim>\<open>im.convert("RGBA")\<close>: same size, mode RGBA, four bands per pixel; an image that
  is RGBA already is copied.
\<close>

definition as_rgba :: "pil \<Rightarrow> image \<Rightarrow> image" where
  "as_rgba env im =
     (if imode im = ''RGBA'' then im
      else \<lparr>isize = isize im, imode = ''RGBA'',
            getpixel = (\<lambda>p. case to_rgba env im p of (r, g, b, a) \<Rightarrow> [r, g, b, a])\<rparr>)"

definition convert_RGBA :: "pil \<Rightarrow> image \<Rightarrow> image io" where
  "convert_RGBA env im = lib_call env (Convert im ''RGBA'') (as_rgba env im)"

text \<open>\<^verbatim>\<open>Image.new(mode, size, color)\<close>: every pixel is \<open>color\<close>.\<close>

definition Image_new :: "pil \<Rightarrow> string \<Rightarrow> nat \<times> nat \<Rightarrow> nat \<Rightarrow> image io" where
  "Image_new env m sz color =
     lib_call env (New m sz color) \<lparr>isize = sz, imode = m, getpixel = (\<lambda>p. [color])\<rparr>"

text \<open>
  \<^verbatim>\<open>ImageDraw.Draw(im).rounded_rectangle(xy, radius=radius, fill=fill)\<close>: the pixels the
  shape covers are set to \<open>fill\<close>, every other pixel keeps its value.
\<close>

definition rounded_rectangle ::
  "pil \<Rightarrow> image \<Rightarrow> (nat \<times> nat) \<times> (nat \<times> nat) \<Rightarrow> real \<Rightarrow> nat \<Rightarrow> image io" where
  "rounded_rectangle env im xy radius fill =
     lib_call env (RoundedRectangle im xy radius fill)
       (im\<lparr>getpixel := (\<lambda>p. if rounded_rectangle_covers env xy radius p then [fill]
                               else getpixel im p)\<rparr>)"

text \<open>
  \<^verbatim>\<open>ImageOps.fit(im, size, centering=c)\<close>: an image of the requested size in the same
  mode; when the requested size is the image's own, a copy of the image.
\<close>

definition ImageOps_fit :: "pil \<Rightarrow> image \<Rightarrow> nat \<times> nat \<Rightarrow> real \<times> real \<Rightarrow> image io" where
  "ImageOps_fit env im sz centering =
     lib_call env (Fit im sz centering)
       (if sz = isize im then im
        else im\<lparr>isize := sz, getpixel := resample env BICUBIC im sz\<rparr>)"

text \<open>
  \<^verbatim>\<open>im.putalpha(alpha)\<close> on an RGBA image with a single-band mask (the only use in
  the repository): band 3 of each pixel becomes the mask's value there.
\<close>

definition putalpha :: "pil \<Rightarrow> image \<Rightarrow> image \<Rightarrow> image io" where
  "putalpha env im alpha =
     lib_call env (Putalpha im alpha)
       (im\<lparr>getpixel := (\<lambda>p. (getpixel im p)[3 := hd (getpixel alpha p)])\<rparr>)"

text \<open>\<^verbatim>\<open>im.resize(size, resample)\<close>: the requested size, the same mode.\<close>

definition resize :: "pil \<Rightarrow> image \<Rightarrow> nat \<times> nat \<Rightarrow> resampling \<Rightarrow> image io" where
  "resize env im sz flt =
     lib_call env (Resize im sz flt) (im\<lparr>isize := sz, getpixel := resample env flt im sz\<rparr>)"

text \<open>
  The colour modes the PNG writer takes; for any other mode it raises
  \<^verbatim>\<open>OSError: cannot write mode <mode> as PNG\<close>.
\<close>

definition png_modes :: "string list" where
  "png_modes = [''1'', ''L'', ''LA'', ''I'', ''I;16'', ''I;16B'', ''P'', ''RGB'', ''RGBA'']"

text \<open>
  A save that raises after it has opened its target leaves the target truncated (or
  removed): opening that path no longer yields an image.
\<close>

definition spoil :: "pil \<Rightarrow> path \<Rightarrow> world \<Rightarrow> world" where
  "spoil env p w = w\<lparr>files := (files w)(p := Inl (leftover env p))\<rparr>"

text \<open>
  \<^verbatim>\<open>im.save(path)\<close> and \<^verbatim>\<open>im.save(path, format)\<close>; every save in the repository
  writes PNG, by the \<^verbatim>\<open>.png\<close> extension or the explicit format. The target is
  opened for writing first, which the environment may refuse; then the writer rejects a
  mode it cannot store; then the data is written, which the environment may again cut
  short. Only a save that completes leaves the image at \<open>path\<close>.
\<close>

definition save :: "pil \<Rightarrow> image \<Rightarrow> path \<Rightarrow> string option \<Rightarrow> unit io" where
  "save env im p fmt w =
     (case fault env (Save im p fmt) of
        Some e \<Rightarrow> (Raise e, if spoils env (Save im p fmt) then spoil env p w else w)
      | None \<Rightarrow>
          if imode im \<in> set png_modes
          then (Return (), w\<lparr>files := (files w)(p := Inr im), saved := saved w @ [(p, im)]\<rparr>)
          else (Raise (Exn (''cannot write mode '' @ imode im @ '' as PNG'')), spoil env p w))"


section \<open>resize\_icons.py\<close>

definition sizes :: "nat list" where
  "sizes = [16, 32, 64, 128, 256, 512]"

definition name_1x :: "path \<Rightarrow> nat \<Rightarrow> path" where
  "name_1x output_dir s = output_dir @ ''/icon_'' @ str_nat s @ ''x'' @ str_nat s @ ''.png''"

definition name_2x :: "path \<Rightarrow> nat \<Rightarrow> path" where
  "name_2x output_dir s = output_dir @ ''/icon_'' @ str_nat s @ ''x'' @ str_nat s @ ''@2x.png''"

text \<open>The body of \<^verbatim>\<open>for s in sizes\<close>, lines 9 to 17.\<close>

fun resize_loop :: "pil \<Rightarrow> image \<Rightarrow> path \<Rightarrow> nat list \<Rightarrow> unit io" where
  "resize_loop env img output_dir [] = io_return ()"
| "resize_loop env img output_dir (s # rest) =
     io_bind (resize env img (s, s) LANCZOS) (\<lambda>out_1x.
     io_bind (save env out_1x (name_1x output_dir s) None) (\<lambda>_.
     let s2 = s * 2 in
     io_bind (resize env img (s2, s2) LANCZOS) (\<lambda>out_2x.
     io_bind (save env out_2x (name_2x output_dir s) None) (\<lambda>_.
     resize_loop env img output_dir rest))))"

definition resize_icon :: "pil \<Rightarrow> path \<Rightarrow> path \<Rightarrow> unit io" where
  "resize_icon env input_path output_dir =
     try_except
       (io_bind (Image_open input_path) (\<lambda>img.
        io_bind (resize_loop env img output_dir sizes) (\<lambda>_.
        print ''Resized all icons.'')))
       (\<lambda>e. print (''Error: '' @ str e))"

text \<open>\<^verbatim>\<open>if __name__ == "__main__": resize_icon(sys.argv[1], sys.argv[2])\<close>\<close>

definition resize_icons_main :: "pil \<Rightarrow> string list \<Rightarrow> unit io" where
  "resize_icons_main env argv =
     io_bind (argv_get argv 1) (\<lambda>a1.
     io_bind (argv_get argv 2) (\<lambda>a2.
     resize_icon env a1 a2))"


section \<open>process\_icon.py\<close>

text \<open>
  Lines 11 to 17: the mask, and the rounded rectangle drawn on it. The ratio and the radius
  are Python floats; they are read here as the real numbers they denote.
\<close>

definition make_mask :: "pil \<Rightarrow> image \<Rightarrow> real \<Rightarrow> image io" where
  "make_mask env img corner_radius_ratio =
     io_bind (Image_new env ''L'' (isize img) 0) (\<lambda>mask.
     case isize img of (w, h) \<Rightarrow>
       let radius = real (min w h) * corner_radius_ratio in
       rounded_rectangle env mask ((0, 0), (w, h)) radius 255)"

definition create_rounded_icon :: "pil \<Rightarrow> path \<Rightarrow> path \<Rightarrow> real \<Rightarrow> unit io" where
  "create_rounded_icon env input_path output_path corner_radius_ratio =
     try_except
       (io_bind (Image_open input_path) (\<lambda>opened.
        io_bind (convert_RGBA env opened) (\<lambda>img.
        io_bind (make_mask env img corner_radius_ratio) (\<lambda>mask.
        io_bind (ImageOps_fit env img (isize mask) (0.5, 0.5)) (\<lambda>fitted.
        io_bind (putalpha env fitted mask) (\<lambda>output.
        io_bind (save env output output_path (Some ''PNG'')) (\<lambda>_.
        print (''Created processed icon at '' @ output_path))))))))
       (\<lambda>e. io_bind (print (''Error processing image: '' @ str e)) (\<lambda>_. sys_exit 1))"

text \<open>The \<^verbatim>\<open>__main__\<close> block, lines 31 to 36; the ratio is left at its default.\<close>

definition process_icon_main :: "pil \<Rightarrow> string list \<Rightarrow> unit io" where
  "process_icon_main env argv =
     (if length argv < 3 then
        io_bind (print ''Usage: python3 process_icon.py <input> <output>'') (\<lambda>_. sys_exit 1)
      else create_rounded_icon env (argv ! 1) (argv ! 2) 0.22)"


section \<open>Vocabulary of the specification\<close>

text \<open>The alpha band of an RGBA pixel, \<^verbatim>\<open>im.getpixel(p)[3]\<close>.\<close>

definition alpha :: "image \<Rightarrow> nat \<times> nat \<Rightarrow> nat" where
  "alpha im p = getpixel im p ! 3"

text \<open>A well-formed image: in mode RGBA every pixel has four bands.\<close>

definition valid_image :: "image \<Rightarrow> bool" where
  "valid_image im = (imode im = ''RGBA'' \<longrightarrow> (\<forall>p. length (getpixel im p) = 4))"

text \<open>
  The world after a list of files has been written, in order: each path then opens as the
  image last written to it, every other path is as before.
\<close>

definition apply_writes ::
  "(path \<times> image) list \<Rightarrow> (path \<Rightarrow> exn + image) \<Rightarrow> path \<Rightarrow> exn + image" where
  "apply_writes ws f = fold (\<lambda>(p, im) g. g(p := Inr im)) ws f"

definition wrote :: "world \<Rightarrow> (path \<times> image) list \<Rightarrow> world" where
  "wrote w ws = w\<lparr>files := apply_writes ws (files w), saved := saved w @ ws\<rparr>"

text \<open>The files a run added to the world it started in.\<close>

definition new_files :: "world \<Rightarrow> world \<Rightarrow> (path \<times> image) list" where
  "new_files w w' = drop (length (saved w)) (saved w')"

definition new_lines :: "world \<Rightarrow> world \<Rightarrow> string list" where
  "new_lines w w' = drop (length (stdout w)) (stdout w')"

text \<open>
  Section 4.2 of the specification, in its words: for each nominal size, the source resized
  to size by size saved as \<^verbatim>\<open>icon_{size}x{size}.png\<close>, then resized to twice that
  saved as \<^verbatim>\<open>icon_{size}x{size}@2x.png\<close>.
\<close>

definition resized :: "pil \<Rightarrow> image \<Rightarrow> nat \<Rightarrow> image" where
  "resized env img n = img\<lparr>isize := (n, n), getpixel := resample env LANCZOS img (n, n)\<rparr>"

definition spec_icon_files :: "pil \<Rightarrow> image \<Rightarrow> path \<Rightarrow> nat list \<Rightarrow> (path \<times> image) list" where
  "spec_icon_files env img output_dir ns =
     concat (map (\<lambda>n. [(name_1x output_dir n, resized env img n),
                        (name_2x output_dir n, resized env img (n * 2))]) ns)"

text \<open>The twelve file names of section 6, in the order of section 4.2.\<close>

definition icon_names :: "path \<Rightarrow> path list" where
  "icon_names output_dir =
     [output_dir @ ''/icon_16x16.png'', output_dir @ ''/icon_16x16@2x.png'',
      output_dir @ ''/icon_32x32.png'', output_dir @ ''/icon_32x32@2x.png'',
      output_dir @ ''/icon_64x64.png'', output_dir @ ''/icon_64x64@2x.png'',
      output_dir @ ''/icon_128x128.png'', output_dir @ ''/icon_128x128@2x.png'',
      output_dir @ ''/icon_256x256.png'', output_dir @ ''/icon_256x256@2x.png'',
      output_dir @ ''/icon_512x512.png'', output_dir @ ''/icon_512x512@2x.png'']"

definition icon_dimensions :: "(nat \<times> nat) list" where
  "icon_dimensions =
     [(16, 16), (32, 32), (32, 32), (64, 64), (64, 64), (128, 128),
      (128, 128), (256, 256), (256, 256), (512, 512), (512, 512), (1024, 1024)]"

text \<open>
  Section 4.1 of the specification, in its words: the mask has the size of the image and is
  255 inside the rounded rectangle spanning the image bounds, 0 elsewhere; the output is
  the RGBA image with its alpha channel replaced by the mask.
\<close>

definition spec_mask :: "pil \<Rightarrow> nat \<times> nat \<Rightarrow> real \<Rightarrow> image" where
  "spec_mask env sz ratio =
     \<lparr>isize = sz, imode = ''L'',
      getpixel = (\<lambda>p. if rounded_rectangle_covers env ((0, 0), sz)
                            (real (min (fst sz) (snd sz)) * ratio) p
                       then [255] else [0])\<rparr>"

definition spec_rounded :: "pil \<Rightarrow> image \<Rightarrow> real \<Rightarrow> image" where
  "spec_rounded env src ratio =
     (as_rgba env src)\<lparr>getpixel :=
        (\<lambda>p. (getpixel (as_rgba env src) p)
                [3 := hd (getpixel (spec_mask env (isize src) ratio) p)])\<rparr>"

text \<open>The library calls one run of the rounder makes on a source image, in order.\<close>

definition rounder_calls :: "pil \<Rightarrow> image \<Rightarrow> real \<Rightarrow> path \<Rightarrow> call list" where
  "rounder_calls env src ratio output_path =
     [Convert src ''RGBA'',
      New ''L'' (isize src) 0,
      RoundedRectangle \<lparr>isize = isize src, imode = ''L'', getpixel = (\<lambda>p. [0])\<rparr>
        ((0, 0), isize src) (real (min (fst (isize src)) (snd (isize src))) * ratio) 255,
      Fit (as_rgba env src) (isize src) (0.5, 0.5),
      Putalpha (as_rgba env src) (spec_mask env (isize src) ratio),
      Save (spec_rounded env src ratio) output_path (Some ''PNG'')]"

text \<open>The library calls one run of the resizer makes on a source image, in order.\<close>

fun resizer_calls :: "pil \<Rightarrow> image \<Rightarrow> path \<Rightarrow> nat list \<Rightarrow> call list" where
  "resizer_calls env img output_dir [] = []"
| "resizer_calls env img output_dir (n # ns) =
     [Resize img (n, n) LANCZOS,
      Save (resized env img n) (name_1x output_dir n) None,
      Resize img (n * 2, n * 2) LANCZOS,
      Save (resized env img (n * 2)) (name_2x output_dir n) None]
     @ resizer_calls env img output_dir ns"

text \<open>
  What a call raises, if anything: what the environment makes it raise, else, for a save,
  the PNG writer's refusal of the image's mode.
\<close>

definition raises :: "pil \<Rightarrow> call \<Rightarrow> exn option" where
  "raises env c =
     (case fault env c of
        Some e \<Rightarrow> Some e
      | None \<Rightarrow>
          (case c of
             Save im p fmt \<Rightarrow>
               if imode im \<in> set png_modes then None
               else Some (Exn (''cannot write mode '' @ imode im @ '' as PNG''))
           | _ \<Rightarrow> None))"

text \<open>The calls of a sequence that complete: those before the first one that raises.\<close>

definition completed :: "pil \<Rightarrow> call list \<Rightarrow> call list" where
  "completed env cs = takeWhile (\<lambda>c. raises env c = None) cs"

text \<open>The exception of the first call of a sequence that raises.\<close>

fun first_raise :: "pil \<Rightarrow> call list \<Rightarrow> exn option" where
  "first_raise env [] = None"
| "first_raise env (c # cs) =
     (case raises env c of Some e \<Rightarrow> Some e | None \<Rightarrow> first_raise env cs)"

text \<open>The files the saves among a list of calls write, in order.\<close>

fun saves_in :: "call list \<Rightarrow> (path \<times> image) list" where
  "saves_in [] = []"
| "saves_in (Save im p fmt # cs) = (p, im) # saves_in cs"
| "saves_in (c # cs) = saves_in cs"

text \<open>
  The path a raising call may have left spoiled: the target of a save that raised after
  opening it (the writer's refusal of a mode comes after the target is opened).
\<close>

definition spoiled_by :: "pil \<Rightarrow> call \<Rightarrow> path option" where
  "spoiled_by env c =
     (case c of
        Save im p fmt \<Rightarrow> if fault env c = None \<or> spoils env c then Some p else None
      | _ \<Rightarrow> None)"

text \<open>The first call of a sequence that raises, if any.\<close>

definition raising_call :: "pil \<Rightarrow> call list \<Rightarrow> call option" where
  "raising_call env cs =
     (case dropWhile (\<lambda>c. raises env c = None) cs of [] \<Rightarrow> None | c # rest \<Rightarrow> Some c)"

text \<open>The world a raising call leaves behind, and the world after a sequence of calls.\<close>

definition leave :: "pil \<Rightarrow> call \<Rightarrow> world \<Rightarrow> world" where
  "leave env c w = (case spoiled_by env c of Some p \<Rightarrow> spoil env p w | None \<Rightarrow> w)"

definition after_calls :: "pil \<Rightarrow> call list \<Rightarrow> world \<Rightarrow> world" where
  "after_calls env cs w =
     (case raising_call env cs of
        None \<Rightarrow> wrote w (saves_in cs)
      | Some c \<Rightarrow> leave env c (wrote w (saves_in (completed env cs))))"

definition as_outcome :: "exn option \<Rightarrow> unit outcome" where
  "as_outcome r = (case r of None \<Rightarrow> Return () | Some e \<Rightarrow> Raise e)"

text \<open>The path the first raising call of a sequence left spoiled, if it did.\<close>

definition spoiled_target :: "pil \<Rightarrow> call list \<Rightarrow> path option" where
  "spoiled_target env cs =
     (case raising_call env cs of Some c \<Rightarrow> spoiled_by env c | None \<Rightarrow> None)"

fun first_fault :: "pil \<Rightarrow> call list \<Rightarrow> exn option" where
  "first_fault env [] = None"
| "first_fault env (c # cs) =
     (case fault env c of Some e \<Rightarrow> Some e | None \<Rightarrow> first_fault env cs)"

text \<open>The \<^verbatim>\<open>except\<close> branch of the rounder: the message, then \<^verbatim>\<open>sys.exit(1)\<close>.\<close>

definition rounder_failed :: "exn \<Rightarrow> world \<Rightarrow> unit outcome \<times> world" where
  "rounder_failed e w =
     (SystemExit 1, w\<lparr>stdout := stdout w @ [''Error processing image: '' @ str e]\<rparr>)"

text \<open>
  Section 8: alpha 0 at the four corner pixels and 255 at the centre pixel.
\<close>

definition corners_clear_centre_opaque :: "image \<Rightarrow> bool" where
  "corners_clear_centre_opaque im =
     (case isize im of (w, h) \<Rightarrow>
        alpha im (0, 0) = 0 \<and> alpha im (w - 1, 0) = 0 \<and>
        alpha im (0, h - 1) = 0 \<and> alpha im (w - 1, h - 1) = 0 \<and>
        alpha im (w div 2, h div 2) = 255)"


section \<open>A sample library and sample worlds\<close>

text \<open>
  One concrete library to run the scripts on. Colour conversion keeps colour and alpha
  bands and spreads a luminance over the three colour bands; resampling takes the nearest
  source pixel. The rounded rectangle follows Pillow's drawing code: its
  \<^verbatim>\<open>ImageDraw.rounded_rectangle\<close> paints up to four pie slices and three rectangles,
  and its rasteriser walks a quarter of each ellipse in doubled coordinates, choosing at
  each step the neighbour nearest to the curve.
\<close>

definition plain_rgba :: "image \<Rightarrow> nat \<times> nat \<Rightarrow> nat \<times> nat \<times> nat \<times> nat" where
  "plain_rgba im p =
     (case getpixel im p of
        [r, g, b, a] \<Rightarrow> (r, g, b, a)
      | [r, g, b] \<Rightarrow> (r, g, b, 255)
      | [l, a] \<Rightarrow> (l, l, l, a)
      | [l] \<Rightarrow> (l, l, l, 255)
      | _ \<Rightarrow> (0, 0, 0, 255))"

definition nearest :: "resampling \<Rightarrow> image \<Rightarrow> nat \<times> nat \<Rightarrow> nat \<times> nat \<Rightarrow> nat list" where
  "nearest flt im sz p =
     (case (isize im, sz, p) of
        ((w, h), (w', h'), (x, y)) \<Rightarrow> getpixel im (x * w div w', y * h div h'))"

text \<open>How far the point \<open>(x, y)\<close> is from the ellipse with diameters \<open>a\<close> and \<open>b\<close>.\<close>

definition quarter_delta :: "int \<Rightarrow> int \<Rightarrow> int \<Rightarrow> int \<Rightarrow> int" where
  "quarter_delta a b x y = \<bar>a * a * y * y + b * b * x * x - a * a * b * b\<bar>"

text \<open>
  The boundary points of a quarter ellipse, from \<open>(a, b mod 2)\<close> to \<open>(a mod 2, b)\<close>:
  from each point the walk goes up, or up and left, or left, to the nearest of the three.
\<close>

function quarter_points :: "int \<Rightarrow> int \<Rightarrow> int \<Rightarrow> int \<Rightarrow> (int \<times> int) list" where
  "quarter_points a b cx cy =
     (if cx < 0 \<or> b < cy then []
      else if cx = a mod 2 \<and> cy = b then [(cx, cy)]
      else
        let n1 = (if 1 < cx \<and> quarter_delta a b (cx - 2) (cy + 2) < quarter_delta a b cx (cy + 2)
                  then (cx - 2, cy + 2) else (cx, cy + 2));
            n2 = (if 1 < cx \<and> quarter_delta a b (cx - 2) cy < quarter_delta a b (fst n1) (snd n1)
                  then (cx - 2, cy) else n1)
        in (cx, cy) # quarter_points a b (fst n2) (snd n2))"
  by pat_completeness auto
termination
  by (relation "measure (\<lambda>(a, b, cx, cy). nat (cx + (b - cy) + 4))") (auto simp: Let_def)

declare quarter_points.simps [simp del]

text \<open>
  A filled ellipse in the box \<open>(x0, y0, x1, y1)\<close>: on the row at doubled height \<open>Y\<close> it
  reaches as far as the first boundary point of that height.
\<close>

definition ellipse_covers :: "int \<times> int \<times> int \<times> int \<Rightarrow> int \<times> int \<Rightarrow> bool" where
  "ellipse_covers box p =
     (case (box, p) of
        ((x0, y0, x1, y1), (px, py)) \<Rightarrow>
          let a = x1 - x0; b = y1 - y0 in
          0 \<le> a \<and> 0 \<le> b \<and>
          list_ex (\<lambda>(cx, cy). cy = \<bar>2 * (py - y0) - b\<bar> \<and> \<bar>2 * (px - x0) - a\<bar> \<le> cx)
            (quarter_points a b a (b mod 2)))"

text \<open>
  A pie slice between two multiples of ninety degrees, measured clockwise from three
  o'clock: the part of the ellipse on that side of its centre.
\<close>

definition pieslice_covers ::
  "int \<times> int \<times> int \<times> int \<Rightarrow> nat \<Rightarrow> nat \<Rightarrow> int \<times> int \<Rightarrow> bool" where
  "pieslice_covers box start end p =
     (case (box, p) of
        ((x0, y0, x1, y1), (px, py)) \<Rightarrow>
          let X = 2 * (px - x0) - (x1 - x0); Y = 2 * (py - y0) - (y1 - y0);
              right = (start = 270 \<or> (start = 0 \<and> end = 90));
              left = (start = 90 \<or> (start = 180 \<and> end = 270));
              lower = (start = 0 \<or> (start = 90 \<and> end = 180));
              upper = (start = 180 \<or> (start = 270 \<and> end = 360))
          in ellipse_covers box p \<and>
             (if right then 0 \<le> X else True) \<and> (if left then X \<le> 0 else True) \<and>
             (if lower then 0 \<le> Y else True) \<and> (if upper then Y \<le> 0 else True))"

definition rectangle_covers :: "int \<times> int \<times> int \<times> int \<Rightarrow> int \<times> int \<Rightarrow> bool" where
  "rectangle_covers box p =
     (case (box, p) of
        ((x0, y0, x1, y1), (px, py)) \<Rightarrow>
          min x0 x1 \<le> px \<and> px \<le> max x0 x1 \<and> min y0 y1 \<le> py \<and> py \<le> max y0 y1)"

definition pillow_rounded_rectangle ::
  "(nat \<times> nat) \<times> (nat \<times> nat) \<Rightarrow> real \<Rightarrow> nat \<times> nat \<Rightarrow> bool" where
  "pillow_rounded_rectangle xy radius pixel =
     (case (xy, pixel) of
        (((nx0, ny0), (nx1, ny1)), (npx, npy)) \<Rightarrow>
          let x0 = int nx0; y0 = int ny0; x1 = int nx1; y1 = int ny1;
              p = (int npx, int npy);
              full_x = (real_of_int (x1 - x0 - 1) \<le> radius * 2);
              d1 = (if full_x then real_of_int (x1 - x0) else radius * 2);
              full_y = (real_of_int (y1 - y0 - 1) \<le> d1);
              d = (if full_y then real_of_int (y1 - y0) else d1);
              r = \<lfloor>d / 2\<rfloor>;
              lo = (\<lambda>v. \<lfloor>real_of_int v - d\<rfloor>);
              hi = (\<lambda>v. \<lfloor>real_of_int v + d\<rfloor>)
          in
          if full_x \<and> full_y then ellipse_covers (x0, y0, x1, y1) p
          else if d = 0 then rectangle_covers (x0, y0, x1, y1) p
          else if full_x then
            pieslice_covers (x0, y0, hi x0, hi y0) 180 360 p \<or>
            pieslice_covers (x0, lo y1, hi x0, y1) 0 180 p \<or>
            rectangle_covers (x0, y0 + r + 1, x1, y1 - r - 1) p
          else if full_y then
            pieslice_covers (x0, y0, hi x0, hi y0) 90 270 p \<or>
            pieslice_covers (lo x1, y0, x1, hi y0) 270 90 p \<or>
            (x0 + r + 1 < x1 - r - 1 \<and> rectangle_covers (x0 + r + 1, y0, x1 - r - 1, y1) p)
          else
            pieslice_covers (x0, y0, hi x0, hi y0) 180 270 p \<or>
            pieslice_covers (lo x1, y0, x1, hi y0) 270 360 p \<or>
            pieslice_covers (lo x1, lo y1, x1, y1) 0 90 p \<or>
            pieslice_covers (x0, lo y1, hi x0, y1) 90 180 p \<or>
            (x0 + r + 1 < x1 - r - 1 \<and> rectangle_covers (x0 + r + 1, y0, x1 - r - 1, y1) p) \<or>
            rectangle_covers (x0, y0 + r + 1, x0 + r, y1 - r - 1) p \<or>
            rectangle_covers (x1 - r, y0 + r + 1, x1, y1 - r - 1) p)"

definition sample_pil :: pil where
  "sample_pil =
     \<lparr>fault = (\<lambda>c. None), spoils = (\<lambda>c. False),
      leftover = (\<lambda>p. Exn (''cannot identify image file '' @ p)),
      to_rgba = plain_rgba, resample = nearest,
      rounded_rectangle_covers = pillow_rounded_rectangle\<rparr>"

text \<open>
  The same library on a disk that fills up while the fourth icon is written: the save has
  opened its target by then.
\<close>

definition full_disk_pil :: pil where
  "full_disk_pil =
     sample_pil\<lparr>fault :=
       (\<lambda>c. case c of
               Save im p fmt \<Rightarrow>
                 if p = ''out/icon_32x32@2x.png''
                 then Some (Exn ''[Errno 28] No space left on device'') else None
             | _ \<Rightarrow> None),
       spoils := (\<lambda>c. True)\<rparr>"

definition icon_16 :: image where
  "icon_16 = \<lparr>isize = (16, 16), imode = ''RGB'', getpixel = (\<lambda>p. [200, 100, 50])\<rparr>"

definition dot :: image where
  "dot = \<lparr>isize = (1, 1), imode = ''RGB'', getpixel = (\<lambda>p. [200, 100, 50])\<rparr>"

text \<open>A photograph in CMYK, as a JPEG file may hold one.\<close>

definition poster :: image where
  "poster = \<lparr>isize = (640, 480), imode = ''CMYK'', getpixel = (\<lambda>p. [0, 80, 160, 20])\<rparr>"

definition sample_world :: world where
  "sample_world =
     \<lparr>files = (\<lambda>p. if p = ''icon.png'' then Inr icon_16
                   else if p = ''dot.png'' then Inr dot
                   else if p = ''poster.jpg'' then Inr poster
                   else Inl (Exn (''[Errno 2] No such file or directory: '' @ p))),
      saved = [], stdout = []\<rparr>"


section \<open>Files written and runs of library calls\<close>

lemma apply_writes_Nil [simp]: "apply_writes [] f = f"
  by (simp add: apply_writes_def)

lemma apply_writes_Cons [simp]:
  "apply_writes ((p, im) # ws) f = apply_writes ws (f(p := Inr im))"
  by (simp add: apply_writes_def)

lemma apply_writes_append [simp]:
  "apply_writes (xs @ ys) f = apply_writes ys (apply_writes xs f)"
  by (simp add: apply_writes_def)

lemma apply_writes_other: "q \<notin> fst ` set ws \<Longrightarrow> apply_writes ws f q = f q"
  by (induction ws arbitrary: f) auto

lemma apply_writes_written:
  "distinct (map fst ws) \<Longrightarrow> (q, im) \<in> set ws \<Longrightarrow> apply_writes ws f q = Inr im"
proof (induction ws arbitrary: f)
  case Nil
  then show ?case by simp
next
  case (Cons x ws)
  obtain p j where x: "x = (p, j)" by (cases x)
  show ?case
  proof (cases "(q, im) = x")
    case True
    with Cons.prems x have "q \<notin> fst ` set ws" by auto
    then show ?thesis using True x by (simp add: apply_writes_other)
  next
    case False
    with Cons show ?thesis using x by auto
  qed
qed

lemma wrote_Nil [simp]: "wrote w [] = w"
  by (simp add: wrote_def)

lemma wrote_wrote [simp]: "wrote (wrote w xs) ys = wrote w (xs @ ys)"
  by (simp add: wrote_def)

lemma wrote_fields [simp]:
  "saved (wrote w ws) = saved w @ ws"
  "stdout (wrote w ws) = stdout w"
  "files (wrote w ws) = apply_writes ws (files w)"
  by (simp_all add: wrote_def)

lemma new_files_wrote [simp]: "new_files w ((wrote w ws)\<lparr>stdout := out\<rparr>) = ws"
  "new_files w (wrote w ws) = ws"
  by (simp_all add: new_files_def)


lemma spoil_fields [simp]:
  "saved (spoil env p w) = saved w"
  "stdout (spoil env p w) = stdout w"
  "files (spoil env p w) = (files w)(p := Inl (leftover env p))"
  by (simp_all add: spoil_def)

lemma leave_fields [simp]:
  "saved (leave env c w) = saved w"
  "stdout (leave env c w) = stdout w"
  by (simp_all add: leave_def split: option.splits)

lemma raises_not_save:
  "saves_in [c] = [] \<Longrightarrow> raises env c = fault env c"
  by (cases c) (simp_all add: raises_def split: option.splits)

lemma leave_not_save:
  "saves_in [c] = [] \<Longrightarrow> leave env c w = w"
  by (cases c) (simp_all add: leave_def spoiled_by_def)

lemma after_calls_Nil [simp]: "after_calls env [] w = w"
  by (simp add: after_calls_def raising_call_def)

lemma after_calls_raise:
  "raises env c = Some e \<Longrightarrow> after_calls env (c # cs) w = leave env c w"
  by (simp add: after_calls_def raising_call_def completed_def)

lemma after_calls_ok:
  "raises env c = None \<Longrightarrow>
     after_calls env (c # cs) w = after_calls env cs (wrote w (saves_in [c]))"
  by (cases c) (simp_all add: after_calls_def raising_call_def completed_def split: list.splits)

lemma bind_lib_call:
  "saves_in [c] = [] \<Longrightarrow>
     io_bind (lib_call env c v) f w =
       (case raises env c of Some e \<Rightarrow> (Raise e, w) | None \<Rightarrow> f v w)"
  by (simp add: io_bind_def lib_call_def raises_not_save split: option.splits)

lemma bind_save:
  "io_bind (save env im p fmt) f w =
     (case raises env (Save im p fmt) of
        Some e \<Rightarrow> (Raise e, leave env (Save im p fmt) w)
      | None \<Rightarrow> f () (wrote w [(p, im)]))"
  by (simp add: io_bind_def save_def raises_def leave_def spoiled_by_def wrote_def
      split: option.splits)

lemma bind_resize:
  "io_bind (resize env img (n, n) LANCZOS) f w =
     (case raises env (Resize img (n, n) LANCZOS) of
        Some e \<Rightarrow> (Raise e, w)
      | None \<Rightarrow> f (resized env img n) w)"
  by (simp add: resize_def resized_def bind_lib_call split: option.splits)

text \<open>The loop of the resizer is the run of its calls.\<close>

lemma resize_loop_run:
  "resize_loop env img d ns w =
     (as_outcome (first_raise env (resizer_calls env img d ns)),
      after_calls env (resizer_calls env img d ns) w)"
proof (induction ns arbitrary: w)
  case Nil
  show ?case by (simp add: io_return_def as_outcome_def)
next
  case (Cons n ns)
  let ?c1 = "Resize img (n, n) LANCZOS"
  let ?c2 = "Save (resized env img n) (name_1x d n) None"
  let ?c3 = "Resize img (n * 2, n * 2) LANCZOS"
  let ?c4 = "Save (resized env img (n * 2)) (name_2x d n) None"
  let ?rest = "resizer_calls env img d ns"
  have calls: "resizer_calls env img d (n # ns) = ?c1 # ?c2 # ?c3 # ?c4 # ?rest"
    by simp
  show ?case
  proof (cases "raises env ?c1")
    case (Some e)
    then show ?thesis
      unfolding calls by (simp add: bind_resize after_calls_raise leave_not_save as_outcome_def)
  next
    case r1: None
    show ?thesis
    proof (cases "raises env ?c2")
      case (Some e)
      then show ?thesis
        unfolding calls using r1 by (simp add: bind_resize bind_save after_calls_ok after_calls_raise as_outcome_def)
    next
      case r2: None
      show ?thesis
      proof (cases "raises env ?c3")
        case (Some e)
        then show ?thesis
          unfolding calls using r1 r2
          by (simp add: bind_resize bind_save after_calls_ok after_calls_raise as_outcome_def
              leave_not_save Let_def)
      next
        case r3: None
        show ?thesis
        proof (cases "raises env ?c4")
          case (Some e)
          then show ?thesis
            unfolding calls using r1 r2 r3
            by (simp add: bind_resize bind_save after_calls_ok after_calls_raise as_outcome_def Let_def)
        next
          case r4: None
          then show ?thesis
            unfolding calls using r1 r2 r3
            by (simp add: bind_resize bind_save after_calls_ok Cons.IH Let_def)
        qed
      qed
    qed
  qed
qed

lemma saves_in_append [simp]: "saves_in (xs @ ys) = saves_in xs @ saves_in ys"
  by (induction xs rule: saves_in.induct) simp_all

lemma saves_in_resizer_calls [simp]:
  "saves_in (resizer_calls env img d ns) = spec_icon_files env img d ns"
  by (induction ns) (simp_all add: spec_icon_files_def)

lemma completed_split: "\<exists>rest. cs = completed env cs @ rest"
  by (metis completed_def takeWhile_dropWhile_id)

lemma saves_completed_prefix:
  "saves_in (completed env cs) = take (length (saves_in (completed env cs))) (saves_in cs)"
proof -
  obtain rest where "cs = completed env cs @ rest" using completed_split by blast
  then have "saves_in cs = saves_in (completed env cs) @ saves_in rest"
    by (metis saves_in_append)
  then show ?thesis by simp
qed

lemma first_raise_none_iff: "first_raise env cs = None \<longleftrightarrow> completed env cs = cs"
  by (induction cs) (auto simp: completed_def split: option.splits)

lemma raising_call_none_iff: "raising_call env cs = None \<longleftrightarrow> first_raise env cs = None"
  by (induction cs) (auto simp: raising_call_def split: option.splits list.splits)

lemma raising_call_raises:
  "raising_call env cs = Some c \<Longrightarrow> first_raise env cs = raises env c \<and> raises env c \<noteq> None"
  by (induction cs) (auto simp: raising_call_def split: option.splits list.splits if_splits)

lemma cs_at_raising_call:
  "raising_call env cs = Some c \<Longrightarrow> \<exists>rest. cs = completed env cs @ c # rest"
  by (induction cs) (auto simp: raising_call_def completed_def split: list.splits if_splits)

lemma saved_after_calls [simp]:
  "saved (after_calls env cs w) = saved w @ saves_in (completed env cs)"
proof (cases "raising_call env cs")
  case None
  then have "completed env cs = cs"
    using raising_call_none_iff first_raise_none_iff by blast
  with None show ?thesis by (simp add: after_calls_def)
next
  case (Some c)
  then show ?thesis by (simp add: after_calls_def)
qed

lemma stdout_after_calls [simp]: "stdout (after_calls env cs w) = stdout w"
  by (simp add: after_calls_def split: option.splits)

lemma files_after_calls:
  "files (after_calls env cs w) =
     (case spoiled_target env cs of
        None \<Rightarrow> apply_writes (saves_in (completed env cs)) (files w)
      | Some p \<Rightarrow> (apply_writes (saves_in (completed env cs)) (files w))(p := Inl (leftover env p)))"
proof (cases "raising_call env cs")
  case None
  then have "completed env cs = cs"
    using raising_call_none_iff first_raise_none_iff by blast
  with None show ?thesis by (simp add: after_calls_def spoiled_target_def)
next
  case (Some c)
  then show ?thesis
    by (simp add: after_calls_def spoiled_target_def leave_def split: option.splits)
qed

text \<open>A save that raised was aiming at the next file of the sequence.\<close>

lemma spoiled_target_is_next:
  assumes "spoiled_target env cs = Some p"
  shows "length (saves_in (completed env cs)) < length (saves_in cs) \<and>
         fst (saves_in cs ! length (saves_in (completed env cs))) = p"
proof -
  from assms obtain c where c: "raising_call env cs = Some c" "spoiled_by env c = Some p"
    by (auto simp: spoiled_target_def split: option.splits)
  from c(2) obtain im fmt where save: "c = Save im p fmt"
    by (cases c) (auto simp: spoiled_by_def split: if_splits)
  from cs_at_raising_call [OF c(1)] obtain rest where "cs = completed env cs @ c # rest"
    by blast
  then have "saves_in cs = saves_in (completed env cs) @ (p, im) # saves_in rest"
    using save by (metis saves_in.simps(2) saves_in_append)
  then show ?thesis by (simp add: nth_append)
qed

lemma fewer_saves_when_raising:
  "first_raise env (resizer_calls env img d ns) = Some e \<Longrightarrow>
     length (saves_in (completed env (resizer_calls env img d ns))) < 2 * length ns"
  by (induction ns) (auto simp: completed_def split: option.splits)


section \<open>The resizer\<close>

lemma spec_icon_files_Cons:
  "spec_icon_files env img d (n # ns) =
     (name_1x d n, resized env img n) # (name_2x d n, resized env img (n * 2)) #
     spec_icon_files env img d ns"
  by (simp add: spec_icon_files_def)

lemma length_spec_icon_files [simp]: "length (spec_icon_files env img d ns) = 2 * length ns"
  by (induction ns) (simp_all add: spec_icon_files_def)

lemma names_of_spec_icon_files:
  "map fst (spec_icon_files env img d sizes) = icon_names d"
  by (simp add: spec_icon_files_def sizes_def icon_names_def name_1x_def name_2x_def str_nat.simps)

lemma dimensions_of_spec_icon_files:
  "map (\<lambda>(p, im). isize im) (spec_icon_files env img d sizes) = icon_dimensions"
  by (simp add: spec_icon_files_def sizes_def icon_dimensions_def resized_def)

lemma distinct_icon_names: "distinct (icon_names d)"
  by (simp add: icon_names_def)

lemma length_icon_names [simp]: "length (icon_names d) = 12"
  by (simp add: icon_names_def)

lemma modes_of_spec_icon_files:
  "(p, im) \<in> set (spec_icon_files env img d ns) \<Longrightarrow>
     imode im = imode img \<and> (\<exists>n \<in> set ns. im = resized env img n \<or> im = resized env img (n * 2))"
  by (auto simp: spec_icon_files_def resized_def)

lemma resize_icon_unreadable:
  "files w inp = Inl e \<Longrightarrow>
     resize_icon env inp d w = (Return (), w\<lparr>stdout := stdout w @ [''Error: '' @ str e]\<rparr>)"
  by (simp add: resize_icon_def try_except_def io_bind_def Image_open_def print_def)

text \<open>A run of \<^const>\<open>resize_icon\<close> on an input that opens.\<close>

lemma resize_icon_run:
  "files w inp = Inr img \<Longrightarrow>
     resize_icon env inp d w =
       (Return (),
        (after_calls env (resizer_calls env img d sizes) w)
          \<lparr>stdout := stdout w @
             [case first_raise env (resizer_calls env img d sizes) of
                None \<Rightarrow> ''Resized all icons.''
              | Some e \<Rightarrow> ''Error: '' @ str e]\<rparr>)"
  by (simp add: resize_icon_def try_except_def io_bind_def Image_open_def print_def
        resize_loop_run as_outcome_def split: option.splits)

lemma new_files_after_calls [simp]:
  "new_files w ((after_calls env cs w)\<lparr>stdout := out\<rparr>) = saves_in (completed env cs)"
  by (simp add: new_files_def)

lemma completed_resizer_saves:
  "\<exists>k. k \<le> 2 * length ns \<and>
       saves_in (completed env (resizer_calls env img d ns)) = take k (spec_icon_files env img d ns) \<and>
       length (saves_in (completed env (resizer_calls env img d ns))) = k"
proof -
  let ?k = "length (saves_in (completed env (resizer_calls env img d ns)))"
  have eq: "saves_in (completed env (resizer_calls env img d ns)) =
      take ?k (spec_icon_files env img d ns)"
    using saves_completed_prefix [of env "resizer_calls env img d ns"] by simp
  obtain rest where "resizer_calls env img d ns =
      completed env (resizer_calls env img d ns) @ rest"
    using completed_split by blast
  then have "saves_in (resizer_calls env img d ns) =
      saves_in (completed env (resizer_calls env img d ns)) @ saves_in rest"
    by (metis saves_in_append)
  then have "length (spec_icon_files env img d ns) = ?k + length (saves_in rest)"
    by simp
  then have "?k \<le> length (spec_icon_files env img d ns)"
    by linarith
  with eq show ?thesis by (intro exI [of _ ?k]) simp
qed

section \<open>Claims about resize\_icons.py\<close>

text \<open>
  C10. The resizer never converts the colour mode: every file a run writes holds exactly
  what the library's resize returned for the image as it was opened (no conversion call
  lies between open, resize and save), so its mode is the mode of the source image and
  only the pixel dimensions, with the resampled data, differ.
\<close>

theorem resize_icon_keeps_colour_mode:
  assumes "files w input_path = Inr src"
    and "resize_icon env input_path output_dir w = (r, w')"
  shows "\<forall>(p, im) \<in> set (new_files w w').
           imode im = imode src \<and>
           (\<exists>n \<in> set sizes. im = resized env src n \<or> im = resized env src (n * 2))"
proof -
  have new: "new_files w w' =
      saves_in (completed env (resizer_calls env src output_dir sizes))"
    using assms by (auto simp: resize_icon_run)
  obtain k where
    "saves_in (completed env (resizer_calls env src output_dir sizes)) =
       take k (spec_icon_files env src output_dir sizes)"
    using completed_resizer_saves by blast
  with new have new': "new_files w w' = take k (spec_icon_files env src output_dir sizes)"
    by simp
  show ?thesis
  proof (intro ballI, clarify)
    fix p im assume "(p, im) \<in> set (new_files w w')"
    then have "(p, im) \<in> set (spec_icon_files env src output_dir sizes)"
      unfolding new' by (rule in_set_takeD)
    then show "imode im = imode src \<and>
        (\<exists>n \<in> set sizes. im = resized env src n \<or> im = resized env src (n * 2))"
      by (rule modes_of_spec_icon_files)
  qed
qed

lemma raises_resized:
  "imode img \<in> set png_modes \<Longrightarrow>
     raises env (Save (resized env img n) p fmt) = fault env (Save (resized env img n) p fmt)"
  by (simp add: raises_def resized_def split: option.splits)

text \<open>On an image the PNG writer takes, the resizer's calls raise only as the environment makes them.\<close>

lemma first_raise_resizer:
  "imode img \<in> set png_modes \<Longrightarrow>
     first_raise env (resizer_calls env img d ns) = first_fault env (resizer_calls env img d ns)"
  by (induction ns) (simp_all add: raises_resized raises_not_save split: option.splits)

lemma first_fault_none: "\<forall>c. fault env c = None \<Longrightarrow> first_fault env cs = None"
  by (induction cs) simp_all

lemma sample_files [simp]:
  "files sample_world ''icon.png'' = Inr icon_16"
  "files sample_world ''dot.png'' = Inr dot"
  "files sample_world ''poster.jpg'' = Inr poster"
  "files sample_world ''missing.png'' = Inl (Exn ''[Errno 2] No such file or directory: missing.png'')"
  "saved sample_world = []"
  "stdout sample_world = []"
  by (simp_all add: sample_world_def)

lemma sample_pil_no_fault [simp]: "fault sample_pil c = None"
  by (simp add: sample_pil_def)

lemma icon_16_fields [simp]:
  "imode icon_16 = ''RGB''" "isize icon_16 = (16, 16)"
  by (simp_all add: icon_16_def)

lemma icon_16_png: "imode icon_16 \<in> set png_modes"
  by (simp add: icon_16_def png_modes_def)

lemma sample_run_completes:
  "first_raise sample_pil (resizer_calls sample_pil icon_16 d ns) = None"
  by (simp add: first_raise_resizer [OF icon_16_png] first_fault_none)

theorem resize_icon_keeps_colour_mode_witness:
  "files sample_world ''icon.png'' = Inr icon_16 \<and>
   length (new_files sample_world
             (snd (resize_icon sample_pil ''icon.png'' ''out'' sample_world))) = 12 \<and>
   set (map (\<lambda>x. imode (snd x))
          (new_files sample_world
             (snd (resize_icon sample_pil ''icon.png'' ''out'' sample_world)))) = {''RGB''}"
proof -
  let ?new = "new_files sample_world (snd (resize_icon sample_pil ''icon.png'' ''out'' sample_world))"
  have h: "files sample_world ''icon.png'' = Inr icon_16" by simp
  have new: "?new = spec_icon_files sample_pil icon_16 ''out'' sizes"
    using sample_run_completes [of "''out''" sizes]
    by (simp add: resize_icon_run first_raise_none_iff)
  have len: "length ?new = 12"
    unfolding new by (simp add: sizes_def)
  have modes: "\<forall>x \<in> set ?new. imode (snd x) = ''RGB''"
    using resize_icon_keeps_colour_mode [where env = sample_pil and output_dir = "''out''",
        OF h prod.collapse [symmetric]]
    by auto
  from len have "?new \<noteq> []" by auto
  then obtain x where x: "x \<in> set ?new" by (cases ?new) auto
  then have "imode (snd x) \<in> (\<lambda>x. imode (snd x)) ` set ?new" by (rule imageI)
  with modes x have "set (map (\<lambda>x. imode (snd x)) ?new) = {''RGB''}" by auto
  with h len show ?thesis by blast
qed

text \<open>
  The command line of the resizer. With fewer than two arguments \<^verbatim>\<open>sys.argv[1]\<close> or
  \<^verbatim>\<open>sys.argv[2]\<close> raises outside the \<^verbatim>\<open>try\<close>, and the interpreter ends with
  status 1 having printed neither message.
\<close>

lemma resize_icons_main_few_args:
  "length argv \<le> 2 \<Longrightarrow> run_script (resize_icons_main env argv) w = (1, w)"
  by (auto simp: run_script_def resize_icons_main_def argv_get_def io_bind_def io_raise_def
      io_return_def)

lemma resize_icons_main_args:
  "2 < length argv \<Longrightarrow> resize_icons_main env argv = resize_icon env (argv ! 1) (argv ! 2)"
  by (auto simp: resize_icons_main_def argv_get_def io_bind_def io_return_def fun_eq_iff
      split: prod.splits outcome.splits)

text \<open>
  C4, as stated, fails: an invocation with a single argument ends with status 1, not 0.
\<close>

theorem resizer_exit_status_counterexample:
  "run_script (resize_icons_main sample_pil [''resize_icons.py'', ''icon.png'']) sample_world
     = (1, sample_world)"
  by (simp add: resize_icons_main_few_args)

text \<open>
  C4, amended. For every invocation with at least two arguments the process exits with
  status 0, also when load, resize or save raised: it has printed \<^verbatim>\<open>Resized all icons.\<close>
  after writing all twelve files, or \<^verbatim>\<open>Error: <details>\<close> after writing fewer. With
  fewer than two arguments it exits with status 1 and prints and writes nothing.
\<close>

theorem resizer_cli_exit_status:
  assumes "run_script (resize_icons_main env argv) w = (status, w')"
  shows "(2 < length argv \<longrightarrow>
            status = 0 \<and>
            (stdout w' = stdout w @ [''Resized all icons.''] \<and> length (new_files w w') = 12 \<or>
             (\<exists>e. stdout w' = stdout w @ [''Error: '' @ str e]) \<and> length (new_files w w') < 12)) \<and>
         (length argv \<le> 2 \<longrightarrow> status = 1 \<and> w' = w)"
proof -
  have few: "status = 1 \<and> w' = w" if "length argv \<le> 2"
    using that assms by (simp add: resize_icons_main_few_args)
  have enough: "status = 0 \<and>
      (stdout w' = stdout w @ [''Resized all icons.''] \<and> length (new_files w w') = 12 \<or>
       (\<exists>e. stdout w' = stdout w @ [''Error: '' @ str e]) \<and> length (new_files w w') < 12)"
    if args: "2 < length argv"
  proof (cases "files w (argv ! 1)")
    case (Inl e)
    with assms args have "status = 0" "w' = w\<lparr>stdout := stdout w @ [''Error: '' @ str e]\<rparr>"
      by (simp_all add: resize_icons_main_args run_script_def resize_icon_unreadable)
    then show ?thesis by (auto simp: new_files_def)
  next
    case (Inr img)
    let ?cs = "resizer_calls env img (argv ! 2) sizes"
    from Inr assms args have st: "status = 0"
      and w': "w' = (after_calls env ?cs w)
          \<lparr>stdout := stdout w @
             [case first_raise env ?cs of
                None \<Rightarrow> ''Resized all icons.''
              | Some e \<Rightarrow> ''Error: '' @ str e]\<rparr>"
      by (simp_all add: resize_icons_main_args run_script_def resize_icon_run)
    show ?thesis
    proof (cases "first_raise env ?cs")
      case None
      then have "completed env ?cs = ?cs" by (simp add: first_raise_none_iff)
      with None st show ?thesis by (simp add: w' sizes_def)
    next
      case (Some e)
      from fewer_saves_when_raising [OF Some]
      have "length (saves_in (completed env ?cs)) < 12" by (simp add: sizes_def)
      with Some st show ?thesis by (auto simp: w')
    qed
  qed
  from few enough show ?thesis by blast
qed

text \<open>On a disk that fills up at the fourth file, three files stay and the error is printed.\<close>

lemma full_disk_run:
  "resize_icon full_disk_pil ''icon.png'' ''out'' sample_world =
     (Return (),
      (spoil full_disk_pil ''out/icon_32x32@2x.png''
         (wrote sample_world (take 3 (spec_icon_files full_disk_pil icon_16 ''out'' sizes))))
        \<lparr>stdout := [''Error: [Errno 28] No space left on device'']\<rparr>)"
  by (simp add: resize_icon_run after_calls_def raising_call_def completed_def sizes_def
        raises_def full_disk_pil_def sample_pil_def name_1x_def name_2x_def str_nat.simps
        resized_def icon_16_def png_modes_def leave_def spoiled_by_def spec_icon_files_def)

theorem resizer_cli_exit_status_witness:
  "2 < length [''resize_icons.py'', ''icon.png'', ''out''] \<and>
   fst (run_script (resize_icons_main full_disk_pil [''resize_icons.py'', ''icon.png'', ''out''])
          sample_world) = 0 \<and>
   stdout (snd (run_script (resize_icons_main full_disk_pil [''resize_icons.py'', ''icon.png'', ''out''])
          sample_world)) = [''Error: [Errno 28] No space left on device'']"
proof -
  let ?argv = "[''resize_icons.py'', ''icon.png'', ''out'']"
  have run: "run_script (resize_icons_main full_disk_pil ?argv) sample_world =
     (0, (spoil full_disk_pil ''out/icon_32x32@2x.png''
            (wrote sample_world (take 3 (spec_icon_files full_disk_pil icon_16 ''out'' sizes))))
           \<lparr>stdout := [''Error: [Errno 28] No space left on device'']\<rparr>)"
    by (simp add: resize_icons_main_args run_script_def full_disk_run)
  have len: "2 < length ?argv" by simp
  show ?thesis
    using len resizer_cli_exit_status [where env = full_disk_pil and argv = ?argv and w = sample_world,
        OF prod.collapse [symmetric]]
    by (simp add: run)
qed

lemma nth_not_in_take:
  assumes "distinct xs" and "k < length xs"
  shows "xs ! k \<notin> set (take k xs)"
proof
  note d = assms(1) and k = assms(2)
  assume mem: "xs ! k \<in> set (take k xs)"
  from mem obtain i where i: "i < length (take k xs)" "take k xs ! i = xs ! k"
    by (auto simp: in_set_conv_nth)
  then have "i < k" "xs ! i = xs ! k" by simp_all
  with d k show False by (simp add: nth_eq_iff_index_eq)
qed

text \<open>The files after a run of calls whose saves aim at distinct paths.\<close>

lemma files_after_calls_spoiled:
  "spoiled_target env cs = Some p \<Longrightarrow> files (after_calls env cs w) p = Inl (leftover env p)"
  by (simp add: files_after_calls)

lemma files_after_calls_other:
  "p \<notin> fst ` set (saves_in (completed env cs)) \<Longrightarrow> spoiled_target env cs \<noteq> Some p \<Longrightarrow>
     files (after_calls env cs w) p = files w p"
  by (cases "spoiled_target env cs") (simp_all add: files_after_calls apply_writes_other)

lemma files_after_calls_written:
  assumes "distinct (map fst (saves_in cs))"
    and "(p, im) \<in> set (saves_in (completed env cs))"
  shows "files (after_calls env cs w) p = Inr im"
proof -
  let ?done = "saves_in (completed env cs)"
  let ?k = "length ?done"
  have pre: "?done = take ?k (saves_in cs)"
    by (rule saves_completed_prefix)
  have d: "distinct (map fst ?done)"
    by (metis pre assms(1) distinct_take take_map)
  have written: "apply_writes ?done (files w) p = Inr im"
    using d assms(2) by (rule apply_writes_written)
  show ?thesis
  proof (cases "spoiled_target env cs")
    case None
    then show ?thesis by (simp add: files_after_calls written)
  next
    case (Some q)
    from spoiled_target_is_next [OF Some]
    have k: "?k < length (saves_in cs)" and q: "fst (saves_in cs ! ?k) = q" by simp_all
    have "map fst (saves_in cs) ! ?k \<notin> set (take ?k (map fst (saves_in cs)))"
      using assms(1) k by (intro nth_not_in_take) simp_all
    then have "q \<notin> fst ` set ?done"
      using k q pre by (metis list.set_map nth_map take_map)
    moreover have "p \<in> fst ` set ?done"
      using assms(2) by force
    ultimately have "q \<noteq> p" by blast
    with Some show ?thesis by (simp add: files_after_calls written)
  qed
qed

lemma distinct_resizer_targets:
  "distinct (map fst (saves_in (resizer_calls env img d sizes)))"
  by (simp add: names_of_spec_icon_files distinct_icon_names)

text \<open>
  C6. Whatever raises during load, resize or save, \<^const>\<open>resize_icon\<close> returns
  normally (the exception does not leave the function) and has printed one line. If the
  input does not open, nothing else changes. Otherwise the files it wrote are exactly
  those of the saves that completed before the first call that raised: the first \<open>k\<close>
  of the twelve, in order. They remain on disk; the target of a save that raised after
  opening it, which is the next file of the sequence, no longer opens as an image; every
  other path is as before, so no file of a size pair not yet reached exists because of
  this run. The line is \<^verbatim>\<open>Resized all icons.\<close> when no call raised and all twelve
  files were written, and \<^verbatim>\<open>Error: \<close> followed by the text of the first exception
  raised when fewer were.
\<close>

theorem resize_icon_swallows_exceptions:
  assumes "resize_icon env input_path output_dir w = (r, w')"
  shows "r = Return () \<and>
    (\<forall>e. files w input_path = Inl e \<longrightarrow>
       w' = w\<lparr>stdout := stdout w @ [''Error: '' @ str e]\<rparr>) \<and>
    (\<forall>img. files w input_path = Inr img \<longrightarrow>
       new_files w w' = saves_in (completed env (resizer_calls env img output_dir sizes)) \<and>
       (\<exists>k. k \<le> 12 \<and>
          new_files w w' = take k (spec_icon_files env img output_dir sizes) \<and>
          map fst (new_files w w') = take k (icon_names output_dir) \<and>
          (\<forall>p. p \<notin> set (take (Suc k) (icon_names output_dir)) \<longrightarrow> files w' p = files w p)) \<and>
       (\<forall>(p, im) \<in> set (new_files w w'). files w' p = Inr im) \<and>
       (\<forall>p. p \<notin> fst ` set (new_files w w') \<and>
            spoiled_target env (resizer_calls env img output_dir sizes) \<noteq> Some p \<longrightarrow>
            files w' p = files w p) \<and>
       (\<forall>p. spoiled_target env (resizer_calls env img output_dir sizes) = Some p \<longrightarrow>
            files w' p = Inl (leftover env p)) \<and>
       (case first_raise env (resizer_calls env img output_dir sizes) of
          None \<Rightarrow>
            length (new_files w w') = 12 \<and> stdout w' = stdout w @ [''Resized all icons.'']
        | Some e \<Rightarrow>
            length (new_files w w') < 12 \<and> stdout w' = stdout w @ [''Error: '' @ str e]))"
proof (intro conjI allI impI)
  show "r = Return ()"
    using assms by (cases "files w input_path") (simp_all add: resize_icon_unreadable resize_icon_run)
next
  fix e assume "files w input_path = Inl e"
  with assms show "w' = w\<lparr>stdout := stdout w @ [''Error: '' @ str e]\<rparr>"
    by (simp add: resize_icon_unreadable)
next
  fix img assume img: "files w input_path = Inr img"
  let ?cs = "resizer_calls env img output_dir sizes"
  let ?done = "saves_in (completed env ?cs)"
  from assms img have w': "w' = (after_calls env ?cs w)
      \<lparr>stdout := stdout w @
         [case first_raise env ?cs of
            None \<Rightarrow> ''Resized all icons.''
          | Some e \<Rightarrow> ''Error: '' @ str e]\<rparr>"
    by (simp add: resize_icon_run)
  show new: "new_files w w' = ?done"
    by (simp add: w')
  obtain k where k: "k \<le> 2 * length sizes"
    "?done = take k (spec_icon_files env img output_dir sizes)" "length ?done = k"
    using completed_resizer_saves [of sizes env img output_dir] by blast
  have k12: "k \<le> 12" using k(1) by (simp add: sizes_def)
  have names: "map fst ?done = take k (icon_names output_dir)"
    unfolding k(2) by (simp only: take_map [symmetric] names_of_spec_icon_files)
  have next_target: "p \<in> set (take (Suc k) (icon_names output_dir))"
    if "spoiled_target env ?cs = Some p" for p
  proof -
    from spoiled_target_is_next [OF that]
    have lt: "k < length (saves_in ?cs)" and p: "fst (saves_in ?cs ! k) = p"
      using k(3) by simp_all
    let ?files = "spec_icon_files env img output_dir sizes"
    from lt have lt': "k < length ?files" by (simp del: length_spec_icon_files)
    have "icon_names output_dir ! k = map fst ?files ! k"
      by (simp only: names_of_spec_icon_files)
    also have "\<dots> = fst (?files ! k)"
      using lt' by (rule nth_map)
    also have "\<dots> = p"
      using p by simp
    finally have "icon_names output_dir ! k = p" .
    moreover have "k < length (icon_names output_dir)"
      using lt' by (metis length_map names_of_spec_icon_files)
    ultimately have "icon_names output_dir ! k = p" "k < length (icon_names output_dir)"
      by simp_all
    then show ?thesis
      by (metis in_set_conv_nth length_take lessI min_less_iff_conj nth_take)
  qed
  have frame: "files w' p = files w p"
    if "p \<notin> set (take (Suc k) (icon_names output_dir))" for p
  proof -
    have "p \<notin> set (take k (icon_names output_dir))"
      using that set_take_subset_set_take [of k "Suc k" "icon_names output_dir"] by auto
    then have 1: "p \<notin> fst ` set ?done"
      using names by (metis list.set_map)
    have 2: "spoiled_target env ?cs \<noteq> Some p"
      using next_target that by blast
    from 1 2 show ?thesis by (simp add: w' files_after_calls_other)
  qed
  show "\<exists>k. k \<le> 12 \<and>
          new_files w w' = take k (spec_icon_files env img output_dir sizes) \<and>
          map fst (new_files w w') = take k (icon_names output_dir) \<and>
          (\<forall>p. p \<notin> set (take (Suc k) (icon_names output_dir)) \<longrightarrow> files w' p = files w p)"
    using k12 k(2) names frame unfolding new by (intro exI [of _ k]) simp
  show "\<forall>(p, im) \<in> set (new_files w w'). files w' p = Inr im"
  proof (intro ballI, clarify)
    fix p im assume "(p, im) \<in> set (new_files w w')"
    then have "(p, im) \<in> set ?done" by (simp add: new)
    from files_after_calls_written [OF distinct_resizer_targets this]
    show "files w' p = Inr im" by (simp add: w')
  qed
  show "files w' p = files w p"
    if "p \<notin> fst ` set (new_files w w') \<and> spoiled_target env ?cs \<noteq> Some p" for p
    using that unfolding new by (simp add: w' files_after_calls_other)
  show "files w' p = Inl (leftover env p)" if "spoiled_target env ?cs = Some p" for p
    using that by (simp add: w' files_after_calls_spoiled)
  show "case first_raise env ?cs of
          None \<Rightarrow>
            length (new_files w w') = 12 \<and> stdout w' = stdout w @ [''Resized all icons.'']
        | Some e \<Rightarrow>
            length (new_files w w') < 12 \<and> stdout w' = stdout w @ [''Error: '' @ str e]"
  proof (cases "first_raise env ?cs")
    case None
    then have "completed env ?cs = ?cs" by (simp add: first_raise_none_iff)
    with None show ?thesis by (simp add: w' sizes_def)
  next
    case (Some e)
    from fewer_saves_when_raising [OF Some]
    have "length ?done < 12" by (simp add: sizes_def)
    with Some show ?thesis by (simp add: w')
  qed
qed

lemma full_disk_spoiled_target:
  "spoiled_target full_disk_pil (resizer_calls full_disk_pil icon_16 ''out'' sizes) =
     Some ''out/icon_32x32@2x.png''"
  by (simp add: spoiled_target_def raising_call_def sizes_def raises_def full_disk_pil_def
        sample_pil_def name_1x_def name_2x_def str_nat.simps resized_def icon_16_def
        png_modes_def spoiled_by_def)

theorem resize_icon_swallows_exceptions_witness:
  "fst (resize_icon full_disk_pil ''icon.png'' ''out'' sample_world) = Return () \<and>
   map fst (new_files sample_world
              (snd (resize_icon full_disk_pil ''icon.png'' ''out'' sample_world))) =
     [''out/icon_16x16.png'', ''out/icon_16x16@2x.png'', ''out/icon_32x32.png''] \<and>
   files (snd (resize_icon full_disk_pil ''icon.png'' ''out'' sample_world))
     ''out/icon_32x32@2x.png'' =
     Inl (leftover full_disk_pil ''out/icon_32x32@2x.png'') \<and>
   stdout (snd (resize_icon full_disk_pil ''icon.png'' ''out'' sample_world)) =
     [''Error: [Errno 28] No space left on device'']"
proof -
  let ?run = "resize_icon full_disk_pil ''icon.png'' ''out'' sample_world"
  have h: "files sample_world ''icon.png'' = Inr icon_16" by simp
  note inst = resize_icon_swallows_exceptions [where env = full_disk_pil and w = sample_world
      and input_path = "''icon.png''" and output_dir = "''out''", OF prod.collapse [symmetric]]
  from inst have r: "fst ?run = Return ()" by blast
  from inst h full_disk_spoiled_target
  have spoiled: "files (snd ?run) ''out/icon_32x32@2x.png'' =
      Inl (leftover full_disk_pil ''out/icon_32x32@2x.png'')"
    by blast
  have names: "map fst (new_files sample_world (snd ?run)) =
      [''out/icon_16x16.png'', ''out/icon_16x16@2x.png'', ''out/icon_32x32.png'']"
    by (simp add: full_disk_run new_files_def spec_icon_files_def sizes_def name_1x_def
          name_2x_def str_nat.simps)
  have out: "stdout (snd ?run) = [''Error: [Errno 28] No space left on device'']"
    by (simp add: full_disk_run)
  from r names spoiled out show ?thesis by blast
qed

text \<open>
  C1, as stated, fails: a CMYK image, as a JPEG file may hold, is a valid input, but the
  PNG writer refuses its mode at the first save, so the run in a writable directory
  writes no file and prints the error.
\<close>

theorem cmyk_input_counterexample:
  "files sample_world ''poster.jpg'' = Inr poster \<and> imode poster = ''CMYK'' \<and>
   resize_icon sample_pil ''poster.jpg'' ''out'' sample_world =
     (Return (),
      (spoil sample_pil ''out/icon_16x16.png'' sample_world)
        \<lparr>stdout := [''Error: cannot write mode CMYK as PNG'']\<rparr>) \<and>
   new_files sample_world
     ((spoil sample_pil ''out/icon_16x16.png'' sample_world)
        \<lparr>stdout := [''Error: cannot write mode CMYK as PNG'']\<rparr>) = []"
  by (simp add: resize_icon_run after_calls_def raising_call_def completed_def sizes_def
        raises_def sample_pil_def name_1x_def name_2x_def str_nat.simps resized_def
        poster_def png_modes_def leave_def spoiled_by_def new_files_def)

text \<open>
  C1, amended. When the input opens as an image in a colour mode the PNG writer takes and
  the environment makes none of the twelve resize and twelve save calls raise (an existing
  writable output directory), \<^const>\<open>resize_icon\<close> returns normally having written
  exactly twelve files, named \<^verbatim>\<open>icon_{N}x{N}.png\<close> and
  \<^verbatim>\<open>icon_{N}x{N}@2x.png\<close> for N = 16, 32, 64, 128, 256, 512 in ascending order with
  the 1x file before the 2x file; the 1x file is N by N and the 2x file 2N by 2N. Each of
  these paths then holds the image written to it, no other path changes, and the line
  printed is \<^verbatim>\<open>Resized all icons.\<close>
\<close>

theorem resize_icon_writes_twelve_icons:
  assumes "files w input_path = Inr img"
    and "imode img \<in> set png_modes"
    and "first_fault env (resizer_calls env img output_dir sizes) = None"
  shows "\<exists>w' ws. resize_icon env input_path output_dir w = (Return (), w') \<and>
           saved w' = saved w @ ws \<and>
           length ws = 12 \<and>
           map fst ws = icon_names output_dir \<and>
           map (\<lambda>(p, im). isize im) ws = icon_dimensions \<and>
           (\<forall>(p, im) \<in> set ws. files w' p = Inr im) \<and>
           (\<forall>p. p \<notin> set (icon_names output_dir) \<longrightarrow> files w' p = files w p) \<and>
           stdout w' = stdout w @ [''Resized all icons.'']"
proof -
  let ?cs = "resizer_calls env img output_dir sizes"
  let ?ws = "spec_icon_files env img output_dir sizes"
  let ?w' = "(wrote w ?ws)\<lparr>stdout := stdout w @ [''Resized all icons.'']\<rparr>"
  have none: "first_raise env ?cs = None"
    using assms(2,3) by (simp add: first_raise_resizer)
  then have "raising_call env ?cs = None"
    by (simp add: raising_call_none_iff)
  then have "after_calls env ?cs w = wrote w ?ws"
    by (simp add: after_calls_def)
  with none have run: "resize_icon env input_path output_dir w = (Return (), ?w')"
    using assms(1) by (simp add: resize_icon_run)
  have names: "map fst ?ws = icon_names output_dir"
    by (rule names_of_spec_icon_files)
  have dist: "distinct (map fst ?ws)"
    by (simp add: names distinct_icon_names)
  have written: "\<forall>(p, im) \<in> set ?ws. files ?w' p = Inr im"
  proof (intro ballI, clarify)
    fix p im assume "(p, im) \<in> set ?ws"
    with dist show "files ?w' p = Inr im" by (simp add: apply_writes_written)
  qed
  have other: "\<forall>p. p \<notin> set (icon_names output_dir) \<longrightarrow> files ?w' p = files w p"
  proof (intro allI impI)
    fix p assume "p \<notin> set (icon_names output_dir)"
    then have "p \<notin> fst ` set ?ws" unfolding names [symmetric] by simp
    then show "files ?w' p = files w p" by (simp add: apply_writes_other)
  qed
  have len: "length ?ws = 12"
    by (simp add: sizes_def)
  show ?thesis
    using run names len written other dimensions_of_spec_icon_files [of env img output_dir]
    by (intro exI [of _ ?w'] exI [of _ ?ws]) simp
qed

lemma full_disk_elsewhere:
  "first_fault full_disk_pil (resizer_calls full_disk_pil icon_16 ''icons'' sizes) = None"
  by (simp add: sizes_def full_disk_pil_def sample_pil_def name_1x_def name_2x_def
        str_nat.simps)

theorem resize_icon_writes_twelve_icons_witness:
  "files sample_world ''icon.png'' = Inr icon_16 \<and> imode icon_16 \<in> set png_modes \<and>
   first_fault full_disk_pil (resizer_calls full_disk_pil icon_16 ''icons'' sizes) = None \<and>
   (\<exists>w' ws. resize_icon full_disk_pil ''icon.png'' ''icons'' sample_world = (Return (), w') \<and>
      saved w' = saved sample_world @ ws \<and>
      length ws = 12 \<and>
      map fst ws = icon_names ''icons'' \<and>
      map (\<lambda>(p, im). isize im) ws = icon_dimensions \<and>
      (\<forall>(p, im) \<in> set ws. files w' p = Inr im) \<and>
      (\<forall>p. p \<notin> set (icon_names ''icons'') \<longrightarrow> files w' p = files sample_world p) \<and>
      stdout w' = stdout sample_world @ [''Resized all icons.''])"
proof -
  have h1: "files sample_world ''icon.png'' = Inr icon_16" by simp
  show ?thesis
    using h1 icon_16_png full_disk_elsewhere
      resize_icon_writes_twelve_icons [OF h1 icon_16_png full_disk_elsewhere]
    by blast
qed


section \<open>The rounder\<close>

lemma as_rgba_fields [simp]:
  "isize (as_rgba env im) = isize im"
  "imode (as_rgba env im) = ''RGBA''"
  by (simp_all add: as_rgba_def)

lemma as_rgba_four_bands:
  "valid_image im \<Longrightarrow> length (getpixel (as_rgba env im) p) = 4"
  by (cases p) (auto simp: as_rgba_def valid_image_def split: prod.splits)

lemma as_rgba_idem: "as_rgba env (as_rgba env im) = as_rgba env im"
  by (simp add: as_rgba_def)

lemma spec_mask_fields [simp]:
  "isize (spec_mask env sz ratio) = sz"
  "imode (spec_mask env sz ratio) = ''L''"
  "getpixel (spec_mask env sz ratio) p =
     (if rounded_rectangle_covers env ((0, 0), sz) (real (min (fst sz) (snd sz)) * ratio) p
      then [255] else [0])"
  by (simp_all add: spec_mask_def)

lemma spec_rounded_fields [simp]:
  "isize (spec_rounded env src ratio) = isize src"
  "imode (spec_rounded env src ratio) = ''RGBA''"
  by (simp_all add: spec_rounded_def)

lemma alpha_spec_rounded:
  "valid_image src \<Longrightarrow>
     alpha (spec_rounded env src ratio) p =
       (if rounded_rectangle_covers env ((0, 0), isize src)
             (real (min (fst (isize src)) (snd (isize src))) * ratio) p
        then 255 else 0)"
  by (simp add: alpha_def spec_rounded_def as_rgba_four_bands)

lemma make_mask_run:
  "io_bind (make_mask env img ratio) f w =
     (case raises env (New ''L'' (isize img) 0) of
        Some e \<Rightarrow> (Raise e, w)
      | None \<Rightarrow>
         (case raises env
                 (RoundedRectangle \<lparr>isize = isize img, imode = ''L'', getpixel = (\<lambda>p. [0])\<rparr>
                    ((0, 0), isize img)
                    (real (min (fst (isize img)) (snd (isize img))) * ratio) 255) of
            Some e \<Rightarrow> (Raise e, w)
          | None \<Rightarrow> f (spec_mask env (isize img) ratio) w))"
  by (cases "isize img")
     (simp add: make_mask_def Image_new_def rounded_rectangle_def bind_lib_call io_bind_def
        lib_call_def raises_not_save spec_mask_def Let_def split: option.splits cong: if_cong)

lemma raises_save_rounded:
  "raises env (Save (spec_rounded env src ratio) p fmt) =
     fault env (Save (spec_rounded env src ratio) p fmt)"
  by (simp add: raises_def png_modes_def split: option.splits)

lemma first_raise_rounder:
  "first_raise env (rounder_calls env src ratio outp) =
     first_fault env (rounder_calls env src ratio outp)"
  by (simp add: rounder_calls_def raises_save_rounded raises_not_save split: option.splits)

text \<open>A run of the rounder on an input that opens is the run of its calls.\<close>

lemma create_rounded_icon_run:
  assumes "files w inp = Inr src"
  shows "create_rounded_icon env inp outp ratio w =
     (case first_raise env (rounder_calls env src ratio outp) of
        None \<Rightarrow>
          (Return (),
           (wrote w [(outp, spec_rounded env src ratio)])
             \<lparr>stdout := stdout w @ [''Created processed icon at '' @ outp]\<rparr>)
      | Some e \<Rightarrow>
          (SystemExit 1,
           (after_calls env (rounder_calls env src ratio outp) w)
             \<lparr>stdout := stdout w @ [''Error processing image: '' @ str e]\<rparr>))"
proof -
  let ?c1 = "Convert src ''RGBA''"
  let ?c2 = "New ''L'' (isize src) 0"
  let ?c3 = "RoundedRectangle \<lparr>isize = isize src, imode = ''L'', getpixel = (\<lambda>p. [0])\<rparr>
        ((0, 0), isize src) (real (min (fst (isize src)) (snd (isize src))) * ratio) 255"
  let ?c4 = "Fit (as_rgba env src) (isize src) (0.5, 0.5)"
  let ?c5 = "Putalpha (as_rgba env src) (spec_mask env (isize src) ratio)"
  let ?c6 = "Save (spec_rounded env src ratio) outp (Some ''PNG'')"
  have body: "io_bind (Image_open inp) (\<lambda>opened.
        io_bind (convert_RGBA env opened) (\<lambda>img.
        io_bind (make_mask env img ratio) (\<lambda>mask.
        io_bind (ImageOps_fit env img (isize mask) (0.5, 0.5)) (\<lambda>fitted.
        io_bind (putalpha env fitted mask) (\<lambda>output.
        io_bind (save env output outp (Some ''PNG'')) (\<lambda>_.
        print (''Created processed icon at '' @ outp))))))) w =
     (case raises env ?c1 of Some e \<Rightarrow> (Raise e, w) | None \<Rightarrow>
      (case raises env ?c2 of Some e \<Rightarrow> (Raise e, w) | None \<Rightarrow>
      (case raises env ?c3 of Some e \<Rightarrow> (Raise e, w) | None \<Rightarrow>
      (case raises env ?c4 of Some e \<Rightarrow> (Raise e, w) | None \<Rightarrow>
      (case raises env ?c5 of Some e \<Rightarrow> (Raise e, w) | None \<Rightarrow>
      (case raises env ?c6 of Some e \<Rightarrow> (Raise e, leave env ?c6 w) | None \<Rightarrow>
         (Return (), (wrote w [(outp, spec_rounded env src ratio)])
             \<lparr>stdout := stdout w @ [''Created processed icon at '' @ outp]\<rparr>)))))))"
    using assms
    by (simp add: io_bind_def [of "Image_open inp"] Image_open_def convert_RGBA_def
          bind_lib_call make_mask_run ImageOps_fit_def putalpha_def bind_save
          spec_rounded_def print_def
        split: option.splits)
  have calls: "rounder_calls env src ratio outp = [?c1, ?c2, ?c3, ?c4, ?c5, ?c6]"
    by (simp add: rounder_calls_def)
  show ?thesis
    unfolding create_rounded_icon_def try_except_def body calls
    by (cases "raises env ?c1"; cases "raises env ?c2"; cases "raises env ?c3";
        cases "raises env ?c4"; cases "raises env ?c5"; cases "raises env ?c6")
       (simp_all add: after_calls_ok after_calls_raise leave_not_save io_bind_def print_def
          sys_exit_def)
qed

lemma create_rounded_icon_unreadable:
  "files w inp = Inl e \<Longrightarrow> create_rounded_icon env inp outp ratio w = rounder_failed e w"
  by (simp add: create_rounded_icon_def try_except_def io_bind_def Image_open_def print_def
        sys_exit_def rounder_failed_def)

lemma create_rounded_icon_readable:
  "files w inp = Inr src \<Longrightarrow>
     create_rounded_icon env inp outp ratio w =
       (case first_fault env (rounder_calls env src ratio outp) of
          Some e \<Rightarrow> rounder_failed e (after_calls env (rounder_calls env src ratio outp) w)
        | None \<Rightarrow>
            (Return (),
             (wrote w [(outp, spec_rounded env src ratio)])
               \<lparr>stdout := stdout w @ [''Created processed icon at '' @ outp]\<rparr>))"
  by (simp add: create_rounded_icon_run first_raise_rounder rounder_failed_def
      split: option.splits)

lemma create_rounded_icon_no_fault:
  "files w inp = Inr src \<Longrightarrow> \<forall>c. fault env c = None \<Longrightarrow>
     create_rounded_icon env inp outp ratio w =
       (Return (),
        (wrote w [(outp, spec_rounded env src ratio)])
          \<lparr>stdout := stdout w @ [''Created processed icon at '' @ outp]\<rparr>)"
  by (simp add: create_rounded_icon_readable first_fault_none)

text \<open>Every run of the rounder either writes the one file and returns, or prints and exits 1.\<close>

lemma create_rounded_icon_outcome:
  "(\<exists>src. files w inp = Inr src \<and>
          first_fault env (rounder_calls env src ratio outp) = None \<and>
          create_rounded_icon env inp outp ratio w =
            (Return (),
             (wrote w [(outp, spec_rounded env src ratio)])
               \<lparr>stdout := stdout w @ [''Created processed icon at '' @ outp]\<rparr>)) \<or>
   (\<exists>e w0. create_rounded_icon env inp outp ratio w = rounder_failed e w0 \<and>
      saved w0 = saved w \<and> stdout w0 = stdout w)"
proof (cases "files w inp")
  case (Inl e)
  then have "create_rounded_icon env inp outp ratio w = rounder_failed e w"
    by (simp add: create_rounded_icon_unreadable)
  then show ?thesis by blast
next
  case (Inr src)
  show ?thesis
  proof (cases "first_fault env (rounder_calls env src ratio outp)")
    case None
    with Inr show ?thesis by (simp add: create_rounded_icon_readable)
  next
    case (Some e)
    let ?w0 = "after_calls env (rounder_calls env src ratio outp) w"
    have "first_raise env (rounder_calls env src ratio outp) = Some e"
      using Some by (simp add: first_raise_rounder)
    then have "saves_in (completed env (rounder_calls env src ratio outp)) = []"
      by (auto simp: rounder_calls_def completed_def split: option.splits)
    then have "saved ?w0 = saved w" "stdout ?w0 = stdout w"
      by simp_all
    moreover from Inr Some have "create_rounded_icon env inp outp ratio w = rounder_failed e ?w0"
      by (simp add: create_rounded_icon_readable)
    ultimately show ?thesis by blast
  qed
qed

section \<open>Claims about process\_icon.py\<close>

text \<open>
  C2. For an input that opens as an image, the rounder succeeds when no library call
  raises, and whenever it succeeds the one file it wrote holds an image of the input's
  width and height: the mask has the image's size, so the fit against it passes the image
  through, leaving its colour bands as they were.
\<close>

theorem create_rounded_icon_keeps_dimensions:
  assumes "files w input_path = Inr src"
  shows "((\<forall>c. fault env c = None) \<longrightarrow>
            fst (create_rounded_icon env input_path output_path ratio w) = Return ()) \<and>
         (\<forall>w'. create_rounded_icon env input_path output_path ratio w = (Return (), w') \<longrightarrow>
            (\<exists>out. new_files w w' = [(output_path, out)] \<and>
               files w' output_path = Inr out \<and>
               isize out = isize src \<and>
               (\<forall>p. take 3 (getpixel out p) = take 3 (getpixel (as_rgba env src) p))))"
proof (intro conjI allI impI)
  assume "\<forall>c. fault env c = None"
  with assms show "fst (create_rounded_icon env input_path output_path ratio w) = Return ()"
    by (simp add: create_rounded_icon_no_fault)
next
  fix w'
  assume run: "create_rounded_icon env input_path output_path ratio w = (Return (), w')"
  let ?out = "spec_rounded env src ratio"
  from run assms have w': "w' = (wrote w [(output_path, ?out)])
      \<lparr>stdout := stdout w @ [''Created processed icon at '' @ output_path]\<rparr>"
    by (auto simp: create_rounded_icon_readable rounder_failed_def split: option.splits)
  have "\<forall>p. take 3 (getpixel ?out p) = take 3 (getpixel (as_rgba env src) p)"
    by (simp add: spec_rounded_def)
  then show "\<exists>out. new_files w w' = [(output_path, out)] \<and>
               files w' output_path = Inr out \<and>
               isize out = isize src \<and>
               (\<forall>p. take 3 (getpixel out p) = take 3 (getpixel (as_rgba env src) p))"
    by (intro exI [of _ ?out]) (simp add: w')
qed

theorem create_rounded_icon_keeps_dimensions_witness:
  "files sample_world ''icon.png'' = Inr icon_16 \<and>
   fst (create_rounded_icon sample_pil ''icon.png'' ''rounded.png'' 0.22 sample_world) = Return () \<and>
   (\<exists>out. new_files sample_world
              (snd (create_rounded_icon sample_pil ''icon.png'' ''rounded.png'' 0.22 sample_world)) =
              [(''rounded.png'', out)] \<and>
          isize out = (16, 16))"
proof -
  let ?run = "create_rounded_icon sample_pil ''icon.png'' ''rounded.png'' 0.22 sample_world"
  have h: "files sample_world ''icon.png'' = Inr icon_16" by simp
  have nf: "\<forall>c. fault sample_pil c = None" by simp
  have sz: "isize icon_16 = (16, 16)" by (simp add: icon_16_def)
  from create_rounded_icon_keeps_dimensions [OF h, of sample_pil "''rounded.png''" "0.22"] nf
  have ok: "fst ?run = Return ()"
    and all: "\<forall>w'. ?run = (Return (), w') \<longrightarrow>
            (\<exists>out. new_files sample_world w' = [(''rounded.png'', out)] \<and>
               files w' ''rounded.png'' = Inr out \<and>
               isize out = isize icon_16 \<and>
               (\<forall>p. take 3 (getpixel out p) = take 3 (getpixel (as_rgba sample_pil icon_16) p)))"
    by blast+
  from ok have "?run = (Return (), snd ?run)" by (simp add: prod_eq_iff)
  with all have "\<exists>out. new_files sample_world (snd ?run) = [(''rounded.png'', out)] \<and>
               isize out = isize icon_16" by blast
  with h ok sz show ?thesis by simp
qed

text \<open>
  C7. Unless the library raises, \<^const>\<open>make_mask\<close> yields a mask; whenever it does, the
  mask is a single-band image of exactly the loaded image's dimensions, and each of its
  pixels is 255 (where the rounded rectangle covers it) or 0 (elsewhere), nothing in
  between.
\<close>

theorem mask_matches_image_and_is_binary:
  "((\<forall>c. fault env c = None) \<longrightarrow> (\<exists>mask. make_mask env img ratio w = (Return mask, w))) \<and>
   (\<forall>mask w'. make_mask env img ratio w = (Return mask, w') \<longrightarrow>
      isize mask = isize img \<and> imode mask = ''L'' \<and>
      (\<forall>p. getpixel mask p = [255] \<or> getpixel mask p = [0]) \<and>
      (\<forall>p. getpixel mask p = [255] \<longleftrightarrow>
             rounded_rectangle_covers env ((0, 0), isize img)
               (real (min (fst (isize img)) (snd (isize img))) * ratio) p))"
proof -
  let ?new = "New ''L'' (isize img) 0"
  let ?draw = "RoundedRectangle \<lparr>isize = isize img, imode = ''L'', getpixel = (\<lambda>p. [0])\<rparr>
       ((0, 0), isize img) (real (min (fst (isize img)) (snd (isize img))) * ratio) 255"
  have run: "make_mask env img ratio w =
      (case raises env ?new of
         Some e \<Rightarrow> (Raise e, w)
       | None \<Rightarrow>
          (case raises env ?draw of
             Some e \<Rightarrow> (Raise e, w)
           | None \<Rightarrow> (Return (spec_mask env (isize img) ratio), w)))"
    using make_mask_run [of env img ratio io_return w]
    by (simp add: io_bind_def io_return_def split: prod.splits outcome.splits option.splits)
  have total: "\<exists>mask. make_mask env img ratio w = (Return mask, w)"
    if "\<forall>c. fault env c = None"
    using that by (simp add: run raises_not_save)
  have props: "isize mask = isize img \<and> imode mask = ''L'' \<and>
      (\<forall>p. getpixel mask p = [255] \<or> getpixel mask p = [0]) \<and>
      (\<forall>p. getpixel mask p = [255] \<longleftrightarrow>
             rounded_rectangle_covers env ((0, 0), isize img)
               (real (min (fst (isize img)) (snd (isize img))) * ratio) p)"
    if "make_mask env img ratio w = (Return mask, w')" for mask w'
  proof -
    from that have "mask = spec_mask env (isize img) ratio"
      by (auto simp: run split: option.splits)
    then show ?thesis by simp
  qed
  from total props show ?thesis by blast
qed

theorem mask_matches_image_and_is_binary_witness:
  "(\<forall>c. fault sample_pil c = None) \<and>
   (\<exists>mask. make_mask sample_pil icon_16 0.22 sample_world = (Return mask, sample_world) \<and>
      isize mask = (16, 16) \<and> imode mask = ''L'' \<and>
      (\<forall>p. getpixel mask p = [255] \<or> getpixel mask p = [0]) \<and>
      getpixel mask (0, 0) = [0] \<and> getpixel mask (8, 8) = [255])"
proof -
  have nf: "\<forall>c. fault sample_pil c = None" by simp
  from mask_matches_image_and_is_binary [of sample_pil icon_16 "0.22" sample_world] nf
  obtain mask where run: "make_mask sample_pil icon_16 0.22 sample_world = (Return mask, sample_world)"
    and props: "isize mask = isize icon_16 \<and> imode mask = ''L'' \<and>
      (\<forall>p. getpixel mask p = [255] \<or> getpixel mask p = [0]) \<and>
      (\<forall>p. getpixel mask p = [255] \<longleftrightarrow>
             rounded_rectangle_covers sample_pil ((0, 0), isize icon_16)
               (real (min (fst (isize icon_16)) (snd (isize icon_16))) * 0.22) p)"
    by blast
  have c0: "\<not> rounded_rectangle_covers sample_pil ((0, 0), isize icon_16)
               (real (min (fst (isize icon_16)) (snd (isize icon_16))) * 0.22) (0, 0)"
    by (simp add: sample_pil_def icon_16_def pillow_rounded_rectangle_def pieslice_covers_def
          ellipse_covers_def rectangle_covers_def quarter_points.simps quarter_delta_def Let_def)
  have c8: "rounded_rectangle_covers sample_pil ((0, 0), isize icon_16)
               (real (min (fst (isize icon_16)) (snd (isize icon_16))) * 0.22) (8, 8)"
    by (simp add: sample_pil_def icon_16_def pillow_rounded_rectangle_def pieslice_covers_def
          ellipse_covers_def rectangle_covers_def quarter_points.simps quarter_delta_def Let_def)
  from props c0 have "getpixel mask (0, 0) = [0]" by blast
  moreover from props c8 have "getpixel mask (8, 8) = [255]" by blast
  moreover have "isize icon_16 = (16, 16)" by (simp add: icon_16_def)
  ultimately show ?thesis using nf run props by auto
qed

lemma process_icon_main_few_args:
  "length argv < 3 \<Longrightarrow>
     process_icon_main env argv w =
       (SystemExit 1, w\<lparr>stdout := stdout w @ [''Usage: python3 process_icon.py <input> <output>'']\<rparr>)"
  by (simp add: process_icon_main_def io_bind_def print_def sys_exit_def)

lemma process_icon_main_args:
  "3 \<le> length argv \<Longrightarrow>
     process_icon_main env argv = create_rounded_icon env (argv ! 1) (argv ! 2) 0.22"
  by (simp add: process_icon_main_def)

lemma new_files_stdout [simp]: "new_files w (w\<lparr>stdout := out\<rparr>) = []"
  by (simp add: new_files_def)

lemma rounder_failed_fields:
  "rounder_failed e w0 = (SystemExit 1, w0\<lparr>stdout := stdout w0 @ [''Error processing image: '' @ str e]\<rparr>)"
  by (simp add: rounder_failed_def)

text \<open>
  C5. The command line of the rounder. With fewer than two arguments it prints the usage
  line and exits with status 1. Otherwise it exits with status 0 having written the one
  file and printed \<^verbatim>\<open>Created processed icon at <output_path>\<close>, or with status 1
  having written nothing and printed \<^verbatim>\<open>Error processing image: <details>\<close>; the
  latter happens when the input cannot be opened and when any library call of the pipeline
  raises (the save to an unwritable path among them), with the details of the exception
  raised first.
\<close>

theorem rounder_cli_exit_status:
  assumes "run_script (process_icon_main env argv) w = (status, w')"
  shows "(length argv < 3 \<longrightarrow>
            status = 1 \<and> new_files w w' = [] \<and>
            stdout w' = stdout w @ [''Usage: python3 process_icon.py <input> <output>'']) \<and>
         (3 \<le> length argv \<longrightarrow>
            (status = 0 \<and> (\<exists>out. new_files w w' = [(argv ! 2, out)]) \<and>
               stdout w' = stdout w @ [''Created processed icon at '' @ argv ! 2]) \<or>
            (status = 1 \<and> new_files w w' = [] \<and>
               (\<exists>e. stdout w' = stdout w @ [''Error processing image: '' @ str e]))) \<and>
         (\<forall>e. 3 \<le> length argv \<and> files w (argv ! 1) = Inl e \<longrightarrow>
            status = 1 \<and> stdout w' = stdout w @ [''Error processing image: '' @ str e]) \<and>
         (\<forall>src e. 3 \<le> length argv \<and> files w (argv ! 1) = Inr src \<and>
                  first_fault env (rounder_calls env src 0.22 (argv ! 2)) = Some e \<longrightarrow>
            status = 1 \<and> stdout w' = stdout w @ [''Error processing image: '' @ str e])"
proof -
  have few: "status = 1 \<and> new_files w w' = [] \<and>
      stdout w' = stdout w @ [''Usage: python3 process_icon.py <input> <output>'']"
    if "length argv < 3"
    using that assms by (auto simp: process_icon_main_few_args run_script_def)
  have either: "(status = 0 \<and> (\<exists>out. new_files w w' = [(argv ! 2, out)]) \<and>
               stdout w' = stdout w @ [''Created processed icon at '' @ argv ! 2]) \<or>
            (status = 1 \<and> new_files w w' = [] \<and>
               (\<exists>e. stdout w' = stdout w @ [''Error processing image: '' @ str e]))"
    if args: "3 \<le> length argv"
  proof -
    from create_rounded_icon_outcome [of w "argv ! 1" env "0.22" "argv ! 2"]
    consider (ok) src where
        "create_rounded_icon env (argv ! 1) (argv ! 2) 0.22 w =
           (Return (),
            (wrote w [(argv ! 2, spec_rounded env src 0.22)])
              \<lparr>stdout := stdout w @ [''Created processed icon at '' @ argv ! 2]\<rparr>)"
      | (failed) e w0 where
        "create_rounded_icon env (argv ! 1) (argv ! 2) 0.22 w = rounder_failed e w0"
        "saved w0 = saved w" "stdout w0 = stdout w"
      by blast
    then show ?thesis
    proof cases
      case ok
      with assms args have "status = 0"
        "w' = (wrote w [(argv ! 2, spec_rounded env src 0.22)])
              \<lparr>stdout := stdout w @ [''Created processed icon at '' @ argv ! 2]\<rparr>"
        by (simp_all add: process_icon_main_args run_script_def)
      then show ?thesis by simp
    next
      case failed
      with assms args have "status = 1"
        "w' = w0\<lparr>stdout := stdout w @ [''Error processing image: '' @ str e]\<rparr>"
        by (simp_all add: process_icon_main_args run_script_def rounder_failed_def)
      with failed(2) show ?thesis by (auto simp: new_files_def)
    qed
  qed
  have unreadable: "status = 1 \<and> stdout w' = stdout w @ [''Error processing image: '' @ str e]"
    if "3 \<le> length argv" "files w (argv ! 1) = Inl e" for e
    using that assms
    by (auto simp: process_icon_main_args run_script_def create_rounded_icon_unreadable
        rounder_failed_def)
  have raised: "status = 1 \<and> stdout w' = stdout w @ [''Error processing image: '' @ str e]"
    if "3 \<le> length argv" "files w (argv ! 1) = Inr src"
      "first_fault env (rounder_calls env src 0.22 (argv ! 2)) = Some e" for src e
    using that assms
    by (auto simp: process_icon_main_args run_script_def create_rounded_icon_readable
        rounder_failed_def)
  from few either unreadable raised show ?thesis by blast
qed

theorem rounder_cli_exit_status_witness:
  "run_script (process_icon_main sample_pil [''process_icon.py'', ''missing.png'', ''rounded.png''])
      sample_world =
     (1, sample_world\<lparr>stdout :=
        [''Error processing image: [Errno 2] No such file or directory: missing.png'']\<rparr>) \<and>
   3 \<le> length [''process_icon.py'', ''missing.png'', ''rounded.png''] \<and>
   files sample_world ([''process_icon.py'', ''missing.png'', ''rounded.png''] ! 1) =
     Inl (Exn ''[Errno 2] No such file or directory: missing.png'')"
proof -
  let ?argv = "[''process_icon.py'', ''missing.png'', ''rounded.png'']"
  let ?run = "run_script (process_icon_main sample_pil ?argv) sample_world"
  have len: "3 \<le> length ?argv" by simp
  have missing: "files sample_world (?argv ! 1) =
      Inl (Exn ''[Errno 2] No such file or directory: missing.png'')"
    by simp
  have saved: "snd ?run = sample_world\<lparr>stdout :=
        [''Error processing image: [Errno 2] No such file or directory: missing.png'']\<rparr>"
    by (simp add: process_icon_main_def run_script_def create_rounded_icon_unreadable
          rounder_failed_def)
  from rounder_cli_exit_status [where env = sample_pil and argv = ?argv and w = sample_world,
      OF prod.collapse [symmetric]] len missing
  have "fst ?run = 1" by blast
  with saved have "?run = (1, sample_world\<lparr>stdout :=
        [''Error processing image: [Errno 2] No such file or directory: missing.png'']\<rparr>)"
    by (simp add: prod_eq_iff)
  with len missing show ?thesis by blast
qed

text \<open>
  C8. The rounder is deterministic: two runs with the same arguments, started in worlds
  in which the input path holds the same file, end the same way, write the same file list
  (the same pixels at the same path) and print the same lines.
\<close>

theorem create_rounded_icon_deterministic:
  assumes "files w1 input_path = files w2 input_path"
    and "create_rounded_icon env input_path output_path ratio w1 = (r1, w1')"
    and "create_rounded_icon env input_path output_path ratio w2 = (r2, w2')"
  shows "r1 = r2 \<and> new_files w1 w1' = new_files w2 w2' \<and> new_lines w1 w1' = new_lines w2 w2' \<and>
         (r1 = Return () \<longrightarrow> files w1' output_path = files w2' output_path)"
proof (cases "files w1 input_path")
  case (Inl e)
  then have f2: "files w2 input_path = Inl e" using assms(1) by simp
  from Inl assms(2) have 1: "r1 = SystemExit 1"
    "w1' = w1\<lparr>stdout := stdout w1 @ [''Error processing image: '' @ str e]\<rparr>"
    by (simp_all add: create_rounded_icon_unreadable rounder_failed_def)
  from f2 assms(3) have 2: "r2 = SystemExit 1"
    "w2' = w2\<lparr>stdout := stdout w2 @ [''Error processing image: '' @ str e]\<rparr>"
    by (simp_all add: create_rounded_icon_unreadable rounder_failed_def)
  show ?thesis by (simp add: 1 2 new_lines_def)
next
  case (Inr src)
  then have f2: "files w2 input_path = Inr src" using assms(1) by simp
  let ?cs = "rounder_calls env src ratio output_path"
  show ?thesis
  proof (cases "first_fault env ?cs")
    case None
    from Inr None assms(2) have 1: "r1 = Return ()"
      "w1' = (wrote w1 [(output_path, spec_rounded env src ratio)])
               \<lparr>stdout := stdout w1 @ [''Created processed icon at '' @ output_path]\<rparr>"
      by (simp_all add: create_rounded_icon_readable)
    from f2 None assms(3) have 2: "r2 = Return ()"
      "w2' = (wrote w2 [(output_path, spec_rounded env src ratio)])
               \<lparr>stdout := stdout w2 @ [''Created processed icon at '' @ output_path]\<rparr>"
      by (simp_all add: create_rounded_icon_readable)
    show ?thesis by (simp add: 1 2 new_lines_def)
  next
    case (Some e)
    have "first_raise env ?cs = Some e"
      using Some by (simp add: first_raise_rounder)
    then have none: "saves_in (completed env ?cs) = []"
      by (auto simp: rounder_calls_def completed_def split: option.splits)
    from Inr Some assms(2) have 1: "r1 = SystemExit 1"
      "w1' = (after_calls env ?cs w1)\<lparr>stdout := stdout w1 @ [''Error processing image: '' @ str e]\<rparr>"
      by (simp_all add: create_rounded_icon_readable rounder_failed_def)
    from f2 Some assms(3) have 2: "r2 = SystemExit 1"
      "w2' = (after_calls env ?cs w2)\<lparr>stdout := stdout w2 @ [''Error processing image: '' @ str e]\<rparr>"
      by (simp_all add: create_rounded_icon_readable rounder_failed_def)
    show ?thesis by (simp add: 1 2 new_lines_def new_files_def none)
  qed
qed

text \<open>Run twice in a row, the second run writes the image the first one wrote, also in place.\<close>

lemma spec_rounded_idem:
  "spec_rounded env (spec_rounded env src ratio) ratio = spec_rounded env src ratio"
  by (simp add: spec_rounded_def as_rgba_def)

lemma create_rounded_icon_twice:
  assumes "create_rounded_icon env input_path output_path ratio w = (Return (), w1)"
    and "create_rounded_icon env input_path output_path ratio w1 = (Return (), w2)"
  shows "files w2 output_path = files w1 output_path"
proof -
  obtain src where src: "files w input_path = Inr src"
    and w1: "w1 = (wrote w [(output_path, spec_rounded env src ratio)])
               \<lparr>stdout := stdout w @ [''Created processed icon at '' @ output_path]\<rparr>"
    using create_rounded_icon_outcome [of w input_path env ratio output_path] assms(1)
    by (auto simp: rounder_failed_def)
  obtain src1 where src1: "files w1 input_path = Inr src1"
    and w2: "w2 = (wrote w1 [(output_path, spec_rounded env src1 ratio)])
               \<lparr>stdout := stdout w1 @ [''Created processed icon at '' @ output_path]\<rparr>"
    using create_rounded_icon_outcome [of w1 input_path env ratio output_path] assms(2)
    by (auto simp: rounder_failed_def)
  show ?thesis
  proof (cases "input_path = output_path")
    case True
    with src1 w1 have "src1 = spec_rounded env src ratio" by simp
    then show ?thesis by (simp add: w2 w1 spec_rounded_idem)
  next
    case False
    with src src1 w1 have "src1 = src" by simp
    then show ?thesis by (simp add: w2 w1)
  qed
qed

theorem create_rounded_icon_deterministic_witness:
  "files sample_world ''icon.png'' =
     files (snd (create_rounded_icon sample_pil ''icon.png'' ''rounded.png'' 0.22 sample_world)) ''icon.png'' \<and>
   fst (create_rounded_icon sample_pil ''icon.png'' ''rounded.png'' 0.22 sample_world) = Return () \<and>
   files (snd (create_rounded_icon sample_pil ''icon.png'' ''rounded.png'' 0.22 sample_world)) ''rounded.png'' =
     files (snd (create_rounded_icon sample_pil ''icon.png'' ''rounded.png'' 0.22
                  (snd (create_rounded_icon sample_pil ''icon.png'' ''rounded.png'' 0.22 sample_world))))
       ''rounded.png''"
proof -
  let ?w1 = "snd (create_rounded_icon sample_pil ''icon.png'' ''rounded.png'' 0.22 sample_world)"
  have same: "files sample_world ''icon.png'' = files ?w1 ''icon.png''"
    by (simp add: create_rounded_icon_no_fault)
  have ok: "fst (create_rounded_icon sample_pil ''icon.png'' ''rounded.png'' 0.22 sample_world) = Return ()"
    by (simp add: create_rounded_icon_no_fault)
  from create_rounded_icon_deterministic [OF same prod.collapse [symmetric] prod.collapse [symmetric],
      of sample_pil "''rounded.png''" "0.22"] ok
  have "files ?w1 ''rounded.png'' =
        files (snd (create_rounded_icon sample_pil ''icon.png'' ''rounded.png'' 0.22 ?w1)) ''rounded.png''"
    by blast
  with same ok show ?thesis by blast
qed

text \<open>
  C9. From the command line the ratio is always the default 0.22: whatever follows the two
  paths on the command line is ignored, the call made is the one with ratio 0.22, and on
  a valid image of size \<open>w\<close> by \<open>h\<close> the alpha written is that of the rounded rectangle
  of radius \<open>min(w, h) * 0.22\<close>.
\<close>

theorem cli_always_uses_default_ratio:
  "process_icon_main env (prog # input_path # output_path # extra) =
     create_rounded_icon env input_path output_path 0.22 \<and>
   (files w input_path = Inr src \<and> valid_image src \<and> isize src = (wd, ht) \<and>
    (\<forall>c. fault env c = None) \<longrightarrow>
      (\<exists>w' out.
         process_icon_main env (prog # input_path # output_path # extra) w = (Return (), w') \<and>
         files w' output_path = Inr out \<and>
         (\<forall>p. alpha out p =
                (if rounded_rectangle_covers env ((0, 0), (wd, ht)) (real (min wd ht) * 0.22) p
                 then 255 else 0))))"
proof (intro conjI impI)
  show main: "process_icon_main env (prog # input_path # output_path # extra) =
      create_rounded_icon env input_path output_path 0.22"
    by (simp add: process_icon_main_def)
  assume a: "files w input_path = Inr src \<and> valid_image src \<and> isize src = (wd, ht) \<and>
    (\<forall>c. fault env c = None)"
  let ?out = "spec_rounded env src 0.22"
  let ?w' = "(wrote w [(output_path, ?out)])
               \<lparr>stdout := stdout w @ [''Created processed icon at '' @ output_path]\<rparr>"
  have "process_icon_main env (prog # input_path # output_path # extra) w = (Return (), ?w')"
    using a by (simp add: main create_rounded_icon_no_fault)
  moreover have "files ?w' output_path = Inr ?out" by simp
  moreover have "\<forall>p. alpha ?out p =
      (if rounded_rectangle_covers env ((0, 0), (wd, ht)) (real (min wd ht) * 0.22) p
       then 255 else 0)"
    using a by (simp add: alpha_spec_rounded)
  ultimately show "\<exists>w' out.
         process_icon_main env (prog # input_path # output_path # extra) w = (Return (), w') \<and>
         files w' output_path = Inr out \<and>
         (\<forall>p. alpha out p =
                (if rounded_rectangle_covers env ((0, 0), (wd, ht)) (real (min wd ht) * 0.22) p
                 then 255 else 0))"
    by blast
qed

theorem cli_always_uses_default_ratio_witness:
  "process_icon_main sample_pil [''process_icon.py'', ''icon.png'', ''rounded.png'', ''0.4''] =
     create_rounded_icon sample_pil ''icon.png'' ''rounded.png'' 0.22 \<and>
   files sample_world ''icon.png'' = Inr icon_16 \<and> valid_image icon_16 \<and>
   isize icon_16 = (16, 16) \<and> (\<forall>c. fault sample_pil c = None) \<and>
   (\<exists>w' out.
      process_icon_main sample_pil [''process_icon.py'', ''icon.png'', ''rounded.png'', ''0.4'']
        sample_world = (Return (), w') \<and>
      files w' ''rounded.png'' = Inr out \<and>
      (\<forall>p. alpha out p =
             (if rounded_rectangle_covers sample_pil ((0, 0), (16, 16)) (real (min 16 16) * 0.22) p
              then 255 else 0)))"
proof -
  have h: "files sample_world ''icon.png'' = Inr icon_16" by simp
  have v: "valid_image icon_16" by (simp add: valid_image_def icon_16_def)
  have sz: "isize icon_16 = (16, 16)" by (simp add: icon_16_def)
  have nf: "\<forall>c. fault sample_pil c = None" by simp
  show ?thesis
    using h v sz nf
      cli_always_uses_default_ratio [of sample_pil "''process_icon.py''" "''icon.png''"
        "''rounded.png''" "[''0.4'']" sample_world icon_16 16 16]
    by blast
qed

lemma sample_mask_16:
  "\<not> rounded_rectangle_covers sample_pil ((0, 0), (16, 16)) (real (min 16 16) * 0.22) (0, 0)"
  "\<not> rounded_rectangle_covers sample_pil ((0, 0), (16, 16)) (real (min 16 16) * 0.22) (15, 0)"
  "\<not> rounded_rectangle_covers sample_pil ((0, 0), (16, 16)) (real (min 16 16) * 0.22) (0, 15)"
  "rounded_rectangle_covers sample_pil ((0, 0), (16, 16)) (real (min 16 16) * 0.22) (15, 15)"
  "rounded_rectangle_covers sample_pil ((0, 0), (16, 16)) (real (min 16 16) * 0.22) (8, 8)"
  by (simp_all add: sample_pil_def pillow_rounded_rectangle_def pieslice_covers_def
        ellipse_covers_def rectangle_covers_def quarter_points.simps quarter_delta_def Let_def)

text \<open>
  Had the box been drawn to the last pixel, \<open>(w - 1, h - 1)\<close>, the same rasteriser would
  have cleared all four corners of the 16 by 16 mask.
\<close>

lemma box_to_last_pixel_clears_corners:
  "\<not> pillow_rounded_rectangle ((0, 0), (15, 15)) (16 * 0.22) (0, 0)"
  "\<not> pillow_rounded_rectangle ((0, 0), (15, 15)) (16 * 0.22) (15, 0)"
  "\<not> pillow_rounded_rectangle ((0, 0), (15, 15)) (16 * 0.22) (0, 15)"
  "\<not> pillow_rounded_rectangle ((0, 0), (15, 15)) (16 * 0.22) (15, 15)"
  "pillow_rounded_rectangle ((0, 0), (15, 15)) (16 * 0.22) (8, 8)"
  by (simp_all add: pillow_rounded_rectangle_def pieslice_covers_def
        ellipse_covers_def rectangle_covers_def quarter_points.simps quarter_delta_def Let_def)

text \<open>
  C3. On a 16 by 16 image with ratio 0.22 the rounder succeeds, but its output does not
  have the transparent corners the comments of \<^verbatim>\<open>create_rounded_icon\<close> announce:
  the rounded rectangle is drawn over \<open>[(0, 0), (w, h)]\<close>, one pixel past the last
  pixel \<open>(w - 1, h - 1)\<close>, so alpha is 0 at \<open>(0, 0)\<close>, \<open>(15, 0)\<close> and \<open>(0, 15)\<close> and
  255 at the centre, but 255 at the bottom-right corner \<open>(15, 15)\<close> too.
\<close>

theorem bottom_right_corner_stays_opaque:
  "create_rounded_icon sample_pil ''icon.png'' ''rounded.png'' 0.22 sample_world =
     (Return (),
      (wrote sample_world [(''rounded.png'', spec_rounded sample_pil icon_16 0.22)])
        \<lparr>stdout := [''Created processed icon at rounded.png'']\<rparr>) \<and>
   isize (spec_rounded sample_pil icon_16 0.22) = (16, 16) \<and>
   alpha (spec_rounded sample_pil icon_16 0.22) (0, 0) = 0 \<and>
   alpha (spec_rounded sample_pil icon_16 0.22) (15, 0) = 0 \<and>
   alpha (spec_rounded sample_pil icon_16 0.22) (0, 15) = 0 \<and>
   alpha (spec_rounded sample_pil icon_16 0.22) (15, 15) = 255 \<and>
   alpha (spec_rounded sample_pil icon_16 0.22) (8, 8) = 255 \<and>
   \<not> corners_clear_centre_opaque (spec_rounded sample_pil icon_16 0.22)"
proof -
  let ?out = "spec_rounded sample_pil icon_16 0.22"
  have run: "create_rounded_icon sample_pil ''icon.png'' ''rounded.png'' 0.22 sample_world =
     (Return (),
      (wrote sample_world [(''rounded.png'', ?out)])
        \<lparr>stdout := [''Created processed icon at rounded.png'']\<rparr>)"
    by (simp add: create_rounded_icon_no_fault)
  have v: "valid_image icon_16"
    by (simp add: valid_image_def)
  have al: "alpha ?out p =
      (if rounded_rectangle_covers sample_pil ((0, 0), (16, 16)) (real (min 16 16) * 0.22) p
       then 255 else 0)" for p
    using alpha_spec_rounded [OF v, of sample_pil "0.22" p] by simp
  have a: "alpha ?out (0, 0) = 0" "alpha ?out (15, 0) = 0" "alpha ?out (0, 15) = 0"
    "alpha ?out (15, 15) = 255" "alpha ?out (8, 8) = 255"
    by (simp_all only: al sample_mask_16 if_True if_False)
  have sz: "isize ?out = (16, 16)" by simp
  have "\<not> corners_clear_centre_opaque ?out"
    using a(4) by (simp add: corners_clear_centre_opaque_def)
  with run sz a show ?thesis by blast
qed

end
